theory Spec2Isabelle
  imports Main
begin

section \<open>Data model of the permission domain\<close>

text \<open>
  Identifiers are the TEXT keys of the tables; a JavaScript Date is the number of
  milliseconds since the epoch. The three enumerations are the closed enums of the
  schema (PermissionResource, PermissionAction, PermissionScope); their constructors
  carry a prefix because DEPARTMENT is both a resource and a scope.
\<close>

type_synonym ident = string
type_synonym timestamp = int

datatype PermissionResource =
  R_USER | R_DEPARTMENT | R_ROLE | R_PERMISSION | R_EXPENSE_CLAIM | R_OFF_SITE_WORK
  | R_MONTHLY_REQUEST | R_SIGNATURE | R_FILE | R_ACTION_LOG | R_SYSTEM

datatype PermissionAction =
  A_CREATE | A_READ | A_UPDATE | A_DELETE | A_LIST | A_EXPORT | A_IMPORT | A_APPROVE
  | A_REJECT | A_SUBMIT | A_CANCEL | A_MANAGE

datatype PermissionScope = S_OWN | S_DEPARTMENT | S_ALL

text \<open>The string value of an enum member, as the running program holds it.\<close>

fun resourceName :: "PermissionResource \<Rightarrow> string" where
  "resourceName R_USER = ''USER''"
| "resourceName R_DEPARTMENT = ''DEPARTMENT''"
| "resourceName R_ROLE = ''ROLE''"
| "resourceName R_PERMISSION = ''PERMISSION''"
| "resourceName R_EXPENSE_CLAIM = ''EXPENSE_CLAIM''"
| "resourceName R_OFF_SITE_WORK = ''OFF_SITE_WORK''"
| "resourceName R_MONTHLY_REQUEST = ''MONTHLY_REQUEST''"
| "resourceName R_SIGNATURE = ''SIGNATURE''"
| "resourceName R_FILE = ''FILE''"
| "resourceName R_ACTION_LOG = ''ACTION_LOG''"
| "resourceName R_SYSTEM = ''SYSTEM''"

fun actionName :: "PermissionAction \<Rightarrow> string" where
  "actionName A_CREATE = ''CREATE''"
| "actionName A_READ = ''READ''"
| "actionName A_UPDATE = ''UPDATE''"
| "actionName A_DELETE = ''DELETE''"
| "actionName A_LIST = ''LIST''"
| "actionName A_EXPORT = ''EXPORT''"
| "actionName A_IMPORT = ''IMPORT''"
| "actionName A_APPROVE = ''APPROVE''"
| "actionName A_REJECT = ''REJECT''"
| "actionName A_SUBMIT = ''SUBMIT''"
| "actionName A_CANCEL = ''CANCEL''"
| "actionName A_MANAGE = ''MANAGE''"

text \<open>String.prototype.toLowerCase on the ASCII letters the enum names are made of.\<close>

definition lowerChar :: "char \<Rightarrow> char" where
  "lowerChar c =
     (case map_of (zip ''ABCDEFGHIJKLMNOPQRSTUVWXYZ'' ''abcdefghijklmnopqrstuvwxyz'') c of
        Some l \<Rightarrow> l
      | None \<Rightarrow> c)"

definition toLowerCase :: "string \<Rightarrow> string" where
  "toLowerCase s = map lowerChar s"

text \<open>
  \<^verbatim>\<open>`${resource.toLowerCase()}:${action.toLowerCase()}`\<close>, the code both
  \<^verbatim>\<open>permissionCode\<close> and \<^verbatim>\<open>checkPermission\<close> build.
\<close>

definition permissionCode :: "PermissionResource \<Rightarrow> PermissionAction \<Rightarrow> string" where
  "permissionCode resource action =
     toLowerCase (resourceName resource) @ '':'' @ toLowerCase (actionName action)"

text \<open>
  The entities of \<^verbatim>\<open>types.ts\<close>. Several of them have fields of the same name
  (id, code, isActive), so every field carries the initials of its entity.
\<close>

record PermissionEntity =
  p_id :: ident
  p_code :: string
  p_name :: string
  p_description :: "string option"
  p_resource :: PermissionResource
  p_action :: PermissionAction
  p_scope :: PermissionScope
  p_isActive :: bool
  p_isSystem :: bool
  p_createdAt :: timestamp
  p_updatedAt :: timestamp

record RoleEntity =
  r_id :: ident
  r_code :: string
  r_name :: string
  r_description :: "string option"
  r_level :: int
  r_parentRoleId :: "ident option"
  r_isActive :: bool
  r_isSystem :: bool
  r_createdAt :: timestamp
  r_updatedAt :: timestamp

text \<open>A row of \<^verbatim>\<open>role_permissions\<close> (a grant) and a row of \<^verbatim>\<open>user_roles\<close> (an assignment).\<close>

record RolePermissionEntity =
  rp_id :: ident
  rp_roleId :: ident
  rp_permissionId :: ident
  rp_grantedById :: "ident option"
  rp_grantedAt :: timestamp

record UserRoleEntity =
  ur_id :: ident
  ur_userId :: ident
  ur_roleId :: ident
  ur_departmentId :: "ident option"
  ur_assignedById :: "ident option"
  ur_assignedAt :: timestamp
  ur_expiresAt :: "timestamp option"
  ur_isActive :: bool

text \<open>
  The store behind the \<^verbatim>\<open>prisma\<close> client: one list of rows per table, in the order
  a \<^verbatim>\<open>findMany\<close> without \<^verbatim>\<open>orderBy\<close> returns them. Every operation takes the store
  (and the clock, where it reads \<^verbatim>\<open>new Date()\<close>) and returns the store it leaves.
  Of the tables \<^verbatim>\<open>users\<close> and \<^verbatim>\<open>departments\<close> only the keys are kept: they are
  what the foreign keys of \<^verbatim>\<open>user_roles\<close> refer to, and nothing here reads another
  column of them.
\<close>

record Db =
  permission :: "PermissionEntity list"
  role :: "RoleEntity list"
  rolePermission :: "RolePermissionEntity list"
  userRole :: "UserRoleEntity list"
  user :: "ident list"
  department :: "ident list"

text \<open>
  What can be thrown instead of returned: a TypeError of the language, and the store's
  errors for a write that addresses no row and for a write that breaks a foreign key.
\<close>

datatype Fault = TypeError | RecordNotFound | ForeignKeyViolation

text \<open>\<^verbatim>\<open>Result<T>\<close> of \<^verbatim>\<open>result.ts\<close>: success(data, message?) or error(message, code?).\<close>

datatype 'a Result = Success 'a "string option" | Failure string "string option"

section \<open>Lookups and the gathering of a user's permissions\<close>

definition findPermission :: "Db \<Rightarrow> ident \<Rightarrow> PermissionEntity option" where
  "findPermission db pid = find (\<lambda>p. p_id p = pid) (permission db)"

definition findRole :: "Db \<Rightarrow> ident \<Rightarrow> RoleEntity option" where
  "findRole db rid = find (\<lambda>r. r_id r = rid) (role db)"

text \<open>
  A JavaScript condition on an optional string: undefined and the empty string are
  both falsy.
\<close>

definition truthy :: "string option \<Rightarrow> bool" where
  "truthy s = (case s of None \<Rightarrow> False | Some v \<Rightarrow> v \<noteq> [])"

text \<open>The filter \<^verbatim>\<open>{ expiresAt: { gt: now } }\<close>: a null column never satisfies it.\<close>

definition expiresAfter :: "timestamp \<Rightarrow> UserRoleEntity \<Rightarrow> bool" where
  "expiresAfter now ur = (case ur_expiresAt ur of None \<Rightarrow> False | Some t \<Rightarrow> now < t)"

text \<open>The relation filter \<^verbatim>\<open>role: { isActive: true }\<close> over the assignment's role.\<close>

definition roleIsActive :: "Db \<Rightarrow> ident \<Rightarrow> bool" where
  "roleIsActive db rid = (case findRole db rid of None \<Rightarrow> False | Some r \<Rightarrow> r_isActive r)"

text \<open>
  The include \<^verbatim>\<open>rolePermissions: { include: { permission: true }, where: { permission:
  { isActive: true } } }\<close> followed by \<^verbatim>\<open>.map((rp) => rp.permission)\<close>: the grants of
  the role whose permission is active, each replaced by its permission.
\<close>

definition activePermissionOf :: "Db \<Rightarrow> RolePermissionEntity \<Rightarrow> PermissionEntity option" where
  "activePermissionOf db rp =
     (case findPermission db (rp_permissionId rp) of
        None \<Rightarrow> None
      | Some p \<Rightarrow> if p_isActive p then Some p else None)"

definition includedPermissions :: "Db \<Rightarrow> ident \<Rightarrow> PermissionEntity list" where
  "includedPermissions db rid =
     List.map_filter (activePermissionOf db)
       (filter (\<lambda>rp. rp_roleId rp = rid) (rolePermission db))"

text \<open>
  The \<^verbatim>\<open>where\<close> object of \<^verbatim>\<open>getAllUserPermissions\<close>. It is built with the expiry
  alternatives under the key OR; when \<^verbatim>\<open>departmentId\<close> is truthy that key is assigned
  again, with the four combinations of (global or this department) and (no expiry or
  a later one).
\<close>

definition whereUserRole ::
  "Db \<Rightarrow> timestamp \<Rightarrow> ident \<Rightarrow> ident option \<Rightarrow> UserRoleEntity \<Rightarrow> bool" where
  "whereUserRole db now userId departmentId ur =
     (ur_userId ur = userId \<and> ur_isActive ur \<and> roleIsActive db (ur_roleId ur) \<and>
      (if truthy departmentId
       then (ur_departmentId ur = None \<and> ur_expiresAt ur = None)
          \<or> (ur_departmentId ur = None \<and> expiresAfter now ur)
          \<or> (ur_departmentId ur = departmentId \<and> ur_expiresAt ur = None)
          \<or> (ur_departmentId ur = departmentId \<and> expiresAfter now ur)
       else ur_expiresAt ur = None \<or> expiresAfter now ur))"

text \<open>
  The loop that fills \<^verbatim>\<open>permissionMap\<close>: a permission enters under its id unless the
  id is there already, and \<^verbatim>\<open>Array.from(permissionMap.values())\<close> lists the entries in
  the order they entered.
\<close>

definition addPermission :: "PermissionEntity list \<Rightarrow> PermissionEntity \<Rightarrow> PermissionEntity list" where
  "addPermission acc p = (if p_id p \<in> set (map p_id acc) then acc else acc @ [p])"

definition getAllUserPermissions ::
  "Db \<Rightarrow> timestamp \<Rightarrow> ident \<Rightarrow> ident option \<Rightarrow> PermissionEntity list" where
  "getAllUserPermissions db now userId departmentId =
     (let userRoles = filter (whereUserRole db now userId departmentId) (userRole db)
      in foldl addPermission []
           (concat (map (\<lambda>ur. includedPermissions db (ur_roleId ur)) userRoles)))"

section \<open>The evaluation engine\<close>

record PermissionCheckRequest =
  rq_userId :: ident
  rq_resource :: PermissionResource
  rq_action :: PermissionAction
  rq_targetDepartmentId :: "ident option"
  rq_targetOwnerId :: "ident option"

record PermissionCheckResult =
  allowed :: bool
  reason :: "string option"
  matchedPermission :: "PermissionEntity option"
  effectiveScope :: "PermissionScope option"

fun scopePriority :: "PermissionScope \<Rightarrow> int" where
  "scopePriority S_ALL = 3"
| "scopePriority S_DEPARTMENT = 2"
| "scopePriority S_OWN = 1"

text \<open>
  \<^verbatim>\<open>Array.prototype.sort\<close> with a comparator. The sort is stable: an element goes in
  front of the first one it does not compare greater than, and the elements are
  placed from the right end of the array.
\<close>

fun insertBy :: "('a \<Rightarrow> 'a \<Rightarrow> int) \<Rightarrow> 'a \<Rightarrow> 'a list \<Rightarrow> 'a list" where
  "insertBy cmp x [] = [x]"
| "insertBy cmp x (y # ys) = (if cmp x y \<le> 0 then x # y # ys else y # insertBy cmp x ys)"

definition sortBy :: "('a \<Rightarrow> 'a \<Rightarrow> int) \<Rightarrow> 'a list \<Rightarrow> 'a list" where
  "sortBy cmp xs = foldr (insertBy cmp) xs []"

text \<open>The comparator \<^verbatim>\<open>(a, b) => scopePriority[b.scope] - scopePriority[a.scope]\<close>.\<close>

definition byScope :: "PermissionEntity \<Rightarrow> PermissionEntity \<Rightarrow> int" where
  "byScope a b = scopePriority (p_scope b) - scopePriority (p_scope a)"

text \<open>
  \<^verbatim>\<open>checkPermission\<close> on the permissions already gathered. Reading \<^verbatim>\<open>.scope\<close> of
  element 0 of an empty array would throw a TypeError; that branch is written out,
  and \<open>decide_returns\<close> below shows it is never taken.
\<close>

definition decide ::
  "PermissionCheckRequest \<Rightarrow> PermissionEntity list \<Rightarrow> Fault + PermissionCheckResult" where
  "decide request permissions =
     (let matchingPermissions =
            filter (\<lambda>p. p_resource p = rq_resource request \<and> p_action p = rq_action request)
              permissions
      in if length matchingPermissions = 0
         then (case find (\<lambda>p. p_resource p = rq_resource request \<and> p_action p = A_MANAGE)
                      permissions of
                 None \<Rightarrow>
                   Inr \<lparr>allowed = False,
                        reason = Some (''No permission for '' @
                                       permissionCode (rq_resource request) (rq_action request)),
                        matchedPermission = None, effectiveScope = None\<rparr>
               | Some managePermission \<Rightarrow>
                   Inr \<lparr>allowed = True, reason = None,
                        matchedPermission = Some managePermission,
                        effectiveScope = Some (p_scope managePermission)\<rparr>)
         else (case sortBy byScope matchingPermissions of
                 [] \<Rightarrow> Inl TypeError
               | bestPermission # _ \<Rightarrow>
                   if p_scope bestPermission = S_OWN \<and> truthy (rq_targetOwnerId request) \<and>
                      rq_targetOwnerId request \<noteq> Some (rq_userId request)
                   then Inr \<lparr>allowed = False,
                             reason = Some ''Permission only allows access to own resources'',
                             matchedPermission = Some bestPermission,
                             effectiveScope = Some (p_scope bestPermission)\<rparr>
                   else Inr \<lparr>allowed = True, reason = None,
                             matchedPermission = Some bestPermission,
                             effectiveScope = Some (p_scope bestPermission)\<rparr>))"

definition checkPermission ::
  "Db \<Rightarrow> timestamp \<Rightarrow> PermissionCheckRequest \<Rightarrow> Fault + PermissionCheckResult" where
  "checkPermission db now request =
     decide request
       (getAllUserPermissions db now (rq_userId request) (rq_targetDepartmentId request))"

section \<open>Role checks and the aggregator\<close>

text \<open>
  The \<^verbatim>\<open>where\<close> object of \<^verbatim>\<open>hasRole\<close> is one object literal: it lists the key OR
  with the expiry alternatives and then spreads \<^verbatim>\<open>{ OR: [{ departmentId },
  { departmentId: null }] }\<close> into itself when \<^verbatim>\<open>departmentId !== undefined\<close>. A key
  given twice keeps its last value, so with a department the object holds the
  department alternatives only; without one it holds the expiry alternatives.
\<close>

definition whereHasRole ::
  "Db \<Rightarrow> timestamp \<Rightarrow> ident \<Rightarrow> string \<Rightarrow> ident option \<Rightarrow> UserRoleEntity \<Rightarrow> bool" where
  "whereHasRole db now userId roleCode departmentId ur =
     (ur_userId ur = userId \<and>
      (case findRole db (ur_roleId ur) of
         None \<Rightarrow> False
       | Some r \<Rightarrow> r_code r = roleCode \<and> r_isActive r) \<and>
      ur_isActive ur \<and>
      (case departmentId of
         None \<Rightarrow> ur_expiresAt ur = None \<or> expiresAfter now ur
       | Some d \<Rightarrow> ur_departmentId ur = Some d \<or> ur_departmentId ur = None))"

definition hasRole :: "Db \<Rightarrow> timestamp \<Rightarrow> ident \<Rightarrow> string \<Rightarrow> ident option \<Rightarrow> bool" where
  "hasRole db now userId roleCode departmentId =
     (let count = length (filter (whereHasRole db now userId roleCode departmentId) (userRole db))
      in count > 0)"

text \<open>
  \<^verbatim>\<open>getUserRoles\<close>: the user's active, unexpired rows, each with its role and the
  role's active permissions, then \<^verbatim>\<open>.filter((ur) => ur.role.isActive)\<close>. The included
  department summary is left out: nothing below reads it. A row always has its role
  (the foreign key of \<^verbatim>\<open>user_roles.role_id\<close>); a row without one yields nothing here.
\<close>

record RoleWithPermissions =
  rwp_role :: RoleEntity
  rwp_permissions :: "PermissionEntity list"

record UserRoleWithDetails =
  urd_userRole :: UserRoleEntity
  urd_role :: RoleWithPermissions

definition withDetails :: "Db \<Rightarrow> UserRoleEntity \<Rightarrow> UserRoleWithDetails option" where
  "withDetails db ur =
     (case findRole db (ur_roleId ur) of
        None \<Rightarrow> None
      | Some r \<Rightarrow>
          if r_isActive r
          then Some \<lparr>urd_userRole = ur,
                     urd_role = \<lparr>rwp_role = r,
                                 rwp_permissions = includedPermissions db (ur_roleId ur)\<rparr>\<rparr>
          else None)"

definition getUserRoles :: "Db \<Rightarrow> timestamp \<Rightarrow> ident \<Rightarrow> UserRoleWithDetails list" where
  "getUserRoles db now userId =
     List.map_filter (withDetails db)
       (filter (\<lambda>ur. ur_userId ur = userId \<and> ur_isActive ur \<and>
                      (ur_expiresAt ur = None \<or> expiresAfter now ur))
          (userRole db))"

text \<open>
  \<^verbatim>\<open>getEffectivePermissions\<close>: one pass over the rows of \<^verbatim>\<open>getUserRoles\<close> with the
  five accumulators of the source. \<^verbatim>\<open>departmentRoles\<close> is a Map, kept as the list of
  its entries in insertion order; \<^verbatim>\<open>set\<close> on a present key replaces the value in place.
\<close>

record UserEffectivePermissions =
  ep_userId :: ident
  ep_permissions :: "PermissionEntity list"
  ep_roles :: "RoleEntity list"
  ep_departmentRoles :: "(ident \<times> RoleEntity list) list"
  ep_computedAt :: timestamp

record Accumulators =
  acc_permissions :: "PermissionEntity list"
  acc_roles :: "RoleEntity list"
  acc_departmentRoles :: "(ident \<times> RoleEntity list) list"
  acc_seenPermissionIds :: "ident set"
  acc_seenRoleIds :: "ident set"

fun mapSet :: "('k \<times> 'v) list \<Rightarrow> 'k \<Rightarrow> 'v \<Rightarrow> ('k \<times> 'v) list" where
  "mapSet [] k v = [(k, v)]"
| "mapSet ((k', v') # es) k v = (if k' = k then (k, v) # es else (k', v') # mapSet es k v)"

definition pushPermission :: "Accumulators \<Rightarrow> PermissionEntity \<Rightarrow> Accumulators" where
  "pushPermission a p =
     (if p_id p \<notin> acc_seenPermissionIds a
      then a\<lparr>acc_seenPermissionIds := insert (p_id p) (acc_seenPermissionIds a),
             acc_permissions := acc_permissions a @ [p]\<rparr>
      else a)"

definition visitUserRole :: "Accumulators \<Rightarrow> UserRoleWithDetails \<Rightarrow> Accumulators" where
  "visitUserRole a row =
     (let r = rwp_role (urd_role row);
          a1 = (if r_id r \<notin> acc_seenRoleIds a
                then a\<lparr>acc_seenRoleIds := insert (r_id r) (acc_seenRoleIds a),
                       acc_roles := acc_roles a @ [r]\<rparr>
                else a);
          a2 = (case ur_departmentId (urd_userRole row) of
                  None \<Rightarrow> a1
                | Some d \<Rightarrow>
                    if d = [] then a1
                    else (let deptRoles = (case map_of (acc_departmentRoles a1) d of
                                             None \<Rightarrow> []
                                           | Some rs \<Rightarrow> rs)
                          in a1\<lparr>acc_departmentRoles :=
                                   mapSet (acc_departmentRoles a1) d (deptRoles @ [r])\<rparr>))
      in foldl pushPermission a2 (rwp_permissions (urd_role row)))"

definition getEffectivePermissions ::
  "Db \<Rightarrow> timestamp \<Rightarrow> ident \<Rightarrow> UserEffectivePermissions Result" where
  "getEffectivePermissions db now userId =
     (let a = foldl visitUserRole
                \<lparr>acc_permissions = [], acc_roles = [], acc_departmentRoles = [],
                 acc_seenPermissionIds = {}, acc_seenRoleIds = {}\<rparr>
                (getUserRoles db now userId)
      in Success \<lparr>ep_userId = userId, ep_permissions = acc_permissions a,
                  ep_roles = acc_roles a, ep_departmentRoles = acc_departmentRoles a,
                  ep_computedAt = now\<rparr> None)"

section \<open>The assignment store\<close>

text \<open>
  The data object of a Prisma write leaves a column as it is when the object gives
  \<^verbatim>\<open>undefined\<close> for it; an optional input that was not supplied is \<open>None\<close> here, so
  \<open>orKeep\<close> is what \<^verbatim>\<open>expiresAt: data.expiresAt\<close> does to the column of an existing
  row. On a new row the column gets its default, null.
\<close>

definition orKeep :: "'a option \<Rightarrow> 'a option \<Rightarrow> 'a option" where
  "orKeep given old = (case given of None \<Rightarrow> old | Some v \<Rightarrow> Some v)"

record AssignRoleInput =
  ai_userId :: ident
  ai_roleId :: ident
  ai_departmentId :: "ident option"
  ai_assignedById :: "ident option"
  ai_expiresAt :: "timestamp option"

text \<open>
  \<^verbatim>\<open>userRoleRepository.assign\<close>: \<^verbatim>\<open>findFirst\<close> on the triple (with
  \<^verbatim>\<open>departmentId ?? null\<close>), then an update of the row with the found id, or a create.
  \<open>newId\<close> is the key the store generates for a created row; \<^verbatim>\<open>is_active\<close> defaults
  to true and \<^verbatim>\<open>assigned_at\<close> to the current time. The update writes no key column
  and cannot fail on the row it has just found. The create writes \<^verbatim>\<open>user_id\<close>,
  \<^verbatim>\<open>role_id\<close> and \<^verbatim>\<open>department_id\<close>, each a foreign key: when one of them refers to
  no row the store refuses the insert, the call throws and nothing is written.
  (\<^verbatim>\<open>assigned_by_id\<close> carries no foreign key.)
\<close>

definition sameTriple :: "ident \<Rightarrow> ident \<Rightarrow> ident option \<Rightarrow> UserRoleEntity \<Rightarrow> bool" where
  "sameTriple userId roleId departmentId ur =
     (ur_userId ur = userId \<and> ur_roleId ur = roleId \<and> ur_departmentId ur = departmentId)"

definition reactivate :: "timestamp \<Rightarrow> AssignRoleInput \<Rightarrow> UserRoleEntity \<Rightarrow> UserRoleEntity" where
  "reactivate now data ur =
     ur\<lparr>ur_isActive := True,
        ur_expiresAt := orKeep (ai_expiresAt data) (ur_expiresAt ur),
        ur_assignedById := orKeep (ai_assignedById data) (ur_assignedById ur),
        ur_assignedAt := now\<rparr>"

definition foreignKeysHold :: "Db \<Rightarrow> AssignRoleInput \<Rightarrow> bool" where
  "foreignKeysHold db data =
     (ai_userId data \<in> set (user db) \<and>
      findRole db (ai_roleId data) \<noteq> None \<and>
      (case ai_departmentId data of None \<Rightarrow> True | Some d \<Rightarrow> d \<in> set (department db)))"

definition assign ::
  "Db \<Rightarrow> timestamp \<Rightarrow> ident \<Rightarrow> AssignRoleInput \<Rightarrow> Fault + UserRoleEntity \<times> Db" where
  "assign db now newId data =
     (case find (sameTriple (ai_userId data) (ai_roleId data) (ai_departmentId data))
             (userRole db) of
        Some existing \<Rightarrow>
          Inr (reactivate now data existing,
               db\<lparr>userRole := map (\<lambda>ur. if ur_id ur = ur_id existing
                                          then reactivate now data ur else ur)
                                  (userRole db)\<rparr>)
      | None \<Rightarrow>
          if foreignKeysHold db data
          then (let created = \<lparr>ur_id = newId, ur_userId = ai_userId data,
                                ur_roleId = ai_roleId data,
                                ur_departmentId = ai_departmentId data,
                                ur_assignedById = ai_assignedById data, ur_assignedAt = now,
                                ur_expiresAt = ai_expiresAt data, ur_isActive = True\<rparr>
                in Inr (created, db\<lparr>userRole := userRole db @ [created]\<rparr>))
          else Inl ForeignKeyViolation)"

text \<open>\<^verbatim>\<open>userRoleRepository.revoke\<close>: \<^verbatim>\<open>updateMany\<close> on the triple, setting isActive false.\<close>

definition revoke :: "Db \<Rightarrow> ident \<Rightarrow> ident \<Rightarrow> ident option \<Rightarrow> Db" where
  "revoke db userId roleId departmentId =
     db\<lparr>userRole := map (\<lambda>ur. if sameTriple userId roleId departmentId ur
                                then ur\<lparr>ur_isActive := False\<rparr> else ur)
                        (userRole db)\<rparr>"

section \<open>The role registry's grants\<close>

record GrantPermissionInput =
  gi_roleId :: ident
  gi_permissionId :: ident
  gi_grantedById :: "ident option"

definition sameGrant :: "ident \<Rightarrow> ident \<Rightarrow> RolePermissionEntity \<Rightarrow> bool" where
  "sameGrant roleId permissionId rp =
     (rp_roleId rp = roleId \<and> rp_permissionId rp = permissionId)"

text \<open>
  \<^verbatim>\<open>roleRepository.grantPermission\<close>: an upsert on the unique pair
  (roleId, permissionId) whose update part is empty; \<^verbatim>\<open>granted_at\<close> defaults to the
  current time. \<^verbatim>\<open>roleRepository.revokePermission\<close> is a \<^verbatim>\<open>deleteMany\<close> on the pair.
\<close>

definition roleRepository_grantPermission ::
  "Db \<Rightarrow> timestamp \<Rightarrow> ident \<Rightarrow> GrantPermissionInput \<Rightarrow> Db" where
  "roleRepository_grantPermission db now newId data =
     (if \<exists>rp \<in> set (rolePermission db). sameGrant (gi_roleId data) (gi_permissionId data) rp
      then db
      else db\<lparr>rolePermission := rolePermission db @
                 [\<lparr>rp_id = newId, rp_roleId = gi_roleId data,
                   rp_permissionId = gi_permissionId data,
                   rp_grantedById = gi_grantedById data, rp_grantedAt = now\<rparr>]\<rparr>)"

definition roleRepository_revokePermission :: "Db \<Rightarrow> ident \<Rightarrow> ident \<Rightarrow> Db" where
  "roleRepository_revokePermission db roleId permissionId =
     db\<lparr>rolePermission := filter (\<lambda>rp. \<not> sameGrant roleId permissionId rp) (rolePermission db)\<rparr>"

text \<open>\<^verbatim>\<open>roleService.grantPermission\<close> and \<^verbatim>\<open>roleService.revokePermission\<close>.\<close>

definition roleService_grantPermission ::
  "Db \<Rightarrow> timestamp \<Rightarrow> ident \<Rightarrow> GrantPermissionInput \<Rightarrow> unit Result \<times> Db" where
  "roleService_grantPermission db now newId data =
     (case findRole db (gi_roleId data) of
        None \<Rightarrow> (Failure ''Role not found'' (Some ''ROLE_NOT_FOUND''), db)
      | Some r \<Rightarrow>
          (case findPermission db (gi_permissionId data) of
             None \<Rightarrow> (Failure ''Permission not found'' (Some ''PERMISSION_NOT_FOUND''), db)
           | Some p \<Rightarrow>
               (Success () (Some ''Permission granted successfully''),
                roleRepository_grantPermission db now newId data)))"

definition roleService_revokePermission :: "Db \<Rightarrow> ident \<Rightarrow> ident \<Rightarrow> unit Result \<times> Db" where
  "roleService_revokePermission db roleId permissionId =
     (case findRole db roleId of
        None \<Rightarrow> (Failure ''Role not found'' (Some ''ROLE_NOT_FOUND''), db)
      | Some r \<Rightarrow>
          (Success () (Some ''Permission revoked successfully''),
           roleRepository_revokePermission db roleId permissionId))"

section \<open>The permission catalog's guarded writes\<close>

record UpdatePermissionInput =
  up_name :: "string option"
  up_description :: "string option"
  up_scope :: "PermissionScope option"
  up_isActive :: "bool option"

definition orElse :: "'a option \<Rightarrow> 'a \<Rightarrow> 'a" where
  "orElse given old = (case given of None \<Rightarrow> old | Some v \<Rightarrow> v)"

text \<open>
  The repository writes address one row by its key and throw when there is none
  (for \<^verbatim>\<open>delete\<close>: none that is also not a system permission). \<^verbatim>\<open>updated_at\<close> has
  no default and no writer in the source: the store sets it on every update. Deleting
  a permission deletes its grants (ON DELETE CASCADE on \<^verbatim>\<open>role_permissions\<close>).
\<close>

definition applyUpdate :: "timestamp \<Rightarrow> UpdatePermissionInput \<Rightarrow> PermissionEntity \<Rightarrow> PermissionEntity" where
  "applyUpdate now data p =
     p\<lparr>p_name := orElse (up_name data) (p_name p),
       p_description := orKeep (up_description data) (p_description p),
       p_scope := orElse (up_scope data) (p_scope p),
       p_isActive := orElse (up_isActive data) (p_isActive p),
       p_updatedAt := now\<rparr>"

definition permissionRepository_update ::
  "Db \<Rightarrow> timestamp \<Rightarrow> ident \<Rightarrow> UpdatePermissionInput \<Rightarrow> Fault + PermissionEntity \<times> Db" where
  "permissionRepository_update db now pid data =
     (case findPermission db pid of
        None \<Rightarrow> Inl RecordNotFound
      | Some p \<Rightarrow>
          Inr (applyUpdate now data p,
               db\<lparr>permission := map (\<lambda>q. if p_id q = pid then applyUpdate now data q else q)
                                    (permission db)\<rparr>))"

definition permissionRepository_deactivate ::
  "Db \<Rightarrow> timestamp \<Rightarrow> ident \<Rightarrow> Fault + PermissionEntity \<times> Db" where
  "permissionRepository_deactivate db now pid =
     (case findPermission db pid of
        None \<Rightarrow> Inl RecordNotFound
      | Some p \<Rightarrow>
          Inr (p\<lparr>p_isActive := False, p_updatedAt := now\<rparr>,
               db\<lparr>permission := map (\<lambda>q. if p_id q = pid
                                          then q\<lparr>p_isActive := False, p_updatedAt := now\<rparr>
                                          else q)
                                    (permission db)\<rparr>))"

definition permissionRepository_delete :: "Db \<Rightarrow> ident \<Rightarrow> Fault + Db" where
  "permissionRepository_delete db pid =
     (if \<exists>p \<in> set (permission db). p_id p = pid \<and> \<not> p_isSystem p
      then Inr (db\<lparr>permission := filter (\<lambda>p. \<not> (p_id p = pid \<and> \<not> p_isSystem p)) (permission db),
                   rolePermission := filter (\<lambda>rp. rp_permissionId rp \<noteq> pid) (rolePermission db)\<rparr>)
      else Inl RecordNotFound)"

text \<open>\<^verbatim>\<open>permissionService.update\<close>, \<^verbatim>\<open>deactivate\<close> and \<^verbatim>\<open>delete\<close>.\<close>

definition permissionService_update ::
  "Db \<Rightarrow> timestamp \<Rightarrow> ident \<Rightarrow> UpdatePermissionInput \<Rightarrow> Fault + PermissionEntity Result \<times> Db" where
  "permissionService_update db now pid data =
     (case findPermission db pid of
        None \<Rightarrow> Inr (Failure ''Permission not found'' (Some ''PERMISSION_NOT_FOUND''), db)
      | Some existing \<Rightarrow>
          if p_isSystem existing \<and> up_isActive data = Some False
          then Inr (Failure ''System permissions cannot be deactivated'' (Some ''SYSTEM_PERMISSION''), db)
          else (case permissionRepository_update db now pid data of
                  Inl fault \<Rightarrow> Inl fault
                | Inr (written, db') \<Rightarrow>
                    Inr (Success written (Some ''Permission updated successfully''), db')))"

definition permissionService_deactivate ::
  "Db \<Rightarrow> timestamp \<Rightarrow> ident \<Rightarrow> Fault + PermissionEntity Result \<times> Db" where
  "permissionService_deactivate db now pid =
     (case findPermission db pid of
        None \<Rightarrow> Inr (Failure ''Permission not found'' (Some ''PERMISSION_NOT_FOUND''), db)
      | Some existing \<Rightarrow>
          if p_isSystem existing
          then Inr (Failure ''System permissions cannot be deactivated'' (Some ''SYSTEM_PERMISSION''), db)
          else (case permissionRepository_deactivate db now pid of
                  Inl fault \<Rightarrow> Inl fault
                | Inr (written, db') \<Rightarrow>
                    Inr (Success written (Some ''Permission deactivated successfully''), db')))"

definition permissionService_delete :: "Db \<Rightarrow> ident \<Rightarrow> Fault + unit Result \<times> Db" where
  "permissionService_delete db pid =
     (case findPermission db pid of
        None \<Rightarrow> Inr (Failure ''Permission not found'' (Some ''PERMISSION_NOT_FOUND''), db)
      | Some existing \<Rightarrow>
          if p_isSystem existing
          then Inr (Failure ''System permissions cannot be deleted'' (Some ''SYSTEM_PERMISSION''), db)
          else (case permissionRepository_delete db pid of
                  Inl fault \<Rightarrow> Inl fault
                | Inr db' \<Rightarrow> Inr (Success () (Some ''Permission deleted successfully''), db')))"

section \<open>Abbreviations and a seeded store for the scenarios\<close>

text \<open>The permission list \<^verbatim>\<open>checkPermission\<close> gathers for a request.\<close>

abbreviation gathered :: "Db \<Rightarrow> timestamp \<Rightarrow> PermissionCheckRequest \<Rightarrow> PermissionEntity list" where
  "gathered db now request \<equiv>
     getAllUserPermissions db now (rq_userId request) (rq_targetDepartmentId request)"

text \<open>
  A small store in the shape the seeding module leaves: system permissions with their
  roles, one permission created by an administrator without a scope on a MANAGE action
  (p5, scope OWN by the create default), one deactivated permission (p6), six users
  (dave without a role), two departments, and the assignments. The clock of the scenarios reads 100.
\<close>

definition mkPermission ::
  "ident \<Rightarrow> string \<Rightarrow> PermissionResource \<Rightarrow> PermissionAction \<Rightarrow> PermissionScope \<Rightarrow> bool \<Rightarrow> bool
     \<Rightarrow> PermissionEntity" where
  "mkPermission pid code resource action scope active system =
     \<lparr>p_id = pid, p_code = code, p_name = code, p_description = None, p_resource = resource,
      p_action = action, p_scope = scope, p_isActive = active, p_isSystem = system,
      p_createdAt = 0, p_updatedAt = 0\<rparr>"

definition mkRole :: "ident \<Rightarrow> string \<Rightarrow> int \<Rightarrow> bool \<Rightarrow> RoleEntity" where
  "mkRole rid code level active =
     \<lparr>r_id = rid, r_code = code, r_name = code, r_description = None, r_level = level,
      r_parentRoleId = None, r_isActive = active, r_isSystem = True, r_createdAt = 0,
      r_updatedAt = 0\<rparr>"

definition mkGrant :: "ident \<Rightarrow> ident \<Rightarrow> ident \<Rightarrow> RolePermissionEntity" where
  "mkGrant gid rid pid =
     \<lparr>rp_id = gid, rp_roleId = rid, rp_permissionId = pid, rp_grantedById = None,
      rp_grantedAt = 0\<rparr>"

definition mkAssignment ::
  "ident \<Rightarrow> ident \<Rightarrow> ident \<Rightarrow> ident option \<Rightarrow> timestamp option \<Rightarrow> bool \<Rightarrow> UserRoleEntity" where
  "mkAssignment aid uid rid dept expires active =
     \<lparr>ur_id = aid, ur_userId = uid, ur_roleId = rid, ur_departmentId = dept,
      ur_assignedById = None, ur_assignedAt = 0, ur_expiresAt = expires, ur_isActive = active\<rparr>"

definition seeded :: Db where
  "seeded =
     \<lparr>permission =
        [mkPermission ''p1'' ''user:read'' R_USER A_READ S_OWN True True,
         mkPermission ''p2'' ''user:read:all'' R_USER A_READ S_ALL True True,
         mkPermission ''p3'' ''user:manage'' R_USER A_MANAGE S_ALL True True,
         mkPermission ''p4'' ''expense-claim:approve'' R_EXPENSE_CLAIM A_APPROVE S_DEPARTMENT True True,
         mkPermission ''p5'' ''file:manage:own'' R_FILE A_MANAGE S_OWN True False,
         mkPermission ''p6'' ''file:read'' R_FILE A_READ S_OWN False False],
      role =
        [mkRole ''r1'' ''employee'' 10 True,
         mkRole ''r2'' ''manager'' 50 True,
         mkRole ''r3'' ''super-admin'' 100 True,
         mkRole ''r4'' ''viewer'' 5 True,
         mkRole ''r5'' ''file-keeper'' 20 True],
      rolePermission =
        [mkGrant ''g1'' ''r1'' ''p1'',
         mkGrant ''g2'' ''r2'' ''p4'',
         mkGrant ''g3'' ''r3'' ''p3'',
         mkGrant ''g4'' ''r4'' ''p2'',
         mkGrant ''g5'' ''r5'' ''p5'',
         mkGrant ''g6'' ''r5'' ''p6''],
      userRole =
        [mkAssignment ''a1'' ''root'' ''r3'' None None True,
         mkAssignment ''a2'' ''alice'' ''r1'' None None True,
         mkAssignment ''a3'' ''alice'' ''r2'' (Some ''D1'') None True,
         mkAssignment ''a4'' ''bob'' ''r1'' None None True,
         mkAssignment ''a5'' ''bob'' ''r4'' None (Some 200) True,
         mkAssignment ''a6'' ''carol'' ''r2'' (Some ''D1'') (Some 50) True,
         mkAssignment ''a7'' ''erin'' ''r5'' None None True],
      user = [''root'', ''alice'', ''bob'', ''carol'', ''dave'', ''erin''],
      department = [''D1'', ''D2'']\<rparr>"

lemmas seeded_defs =
  seeded_def mkPermission_def mkRole_def mkGrant_def mkAssignment_def

lemmas gather_defs =
  getAllUserPermissions_def whereUserRole_def roleIsActive_def findRole_def
  includedPermissions_def activePermissionOf_def findPermission_def addPermission_def
  truthy_def expiresAfter_def List.map_filter_def


definition uniqueGrants :: "Db \<Rightarrow> bool" where
  "uniqueGrants db =
     distinct (map (\<lambda>rp. (rp_roleId rp, rp_permissionId rp)) (rolePermission db))"

text \<open>
  A sequence of \<^verbatim>\<open>roleService.grantPermission\<close> calls, each at its own time and with
  its own generated key, run one after the other; the results are collected in order.
\<close>

fun grantAll ::
  "Db \<Rightarrow> (timestamp \<times> ident \<times> GrantPermissionInput) list \<Rightarrow> unit Result list \<times> Db" where
  "grantAll db [] = ([], db)"
| "grantAll db ((now, newId, data) # calls) =
     (let (res, db') = roleService_grantPermission db now newId data;
          (rest, db'') = grantAll db' calls
      in (res # rest, db''))"

text \<open>The keys of the two invariants, and two results that recur.\<close>

abbreviation tripleOf :: "UserRoleEntity \<Rightarrow> ident \<times> ident \<times> ident option" where
  "tripleOf ur \<equiv> (ur_userId ur, ur_roleId ur, ur_departmentId ur)"

abbreviation pairOf :: "RolePermissionEntity \<Rightarrow> ident \<times> ident" where
  "pairOf rp \<equiv> (rp_roleId rp, rp_permissionId rp)"

abbreviation granted :: "unit Result" where
  "granted \<equiv> Success () (Some ''Permission granted successfully'')"

abbreviation notFound :: "'a Result" where
  "notFound \<equiv> Failure ''Permission not found'' (Some ''PERMISSION_NOT_FOUND'')"

text \<open>A list with the broader scopes in front.\<close>

abbreviation broaderFirst :: "PermissionEntity list \<Rightarrow> bool" where
  "broaderFirst \<equiv> sorted_wrt (\<lambda>a b. scopePriority (p_scope b) \<le> scopePriority (p_scope a))"

section \<open>The sort and the decision never fault\<close>

lemma set_insertBy: "set (insertBy cmp x xs) = insert x (set xs)"
  by (induction xs) auto

lemma set_sortBy: "set (sortBy cmp xs) = set xs"
  by (induction xs) (simp_all add: sortBy_def set_insertBy)

lemma sortBy_Nil_iff: "sortBy cmp xs = [] \<longleftrightarrow> xs = []"
  using set_sortBy [of cmp xs] by (metis set_empty)

lemma insertBy_broaderFirst:
  "broaderFirst ys \<Longrightarrow> broaderFirst (insertBy byScope x ys)"
proof (induction ys)
  case Nil
  then show ?case by simp
next
  case (Cons y ys)
  show ?case
  proof (cases "byScope x y \<le> 0")
    case True
    then have "scopePriority (p_scope y) \<le> scopePriority (p_scope x)"
      by (simp add: byScope_def)
    with Cons.prems True show ?thesis by fastforce
  next
    case False
    then have "scopePriority (p_scope x) \<le> scopePriority (p_scope y)"
      by (simp add: byScope_def)
    with Cons False show ?thesis by (auto simp: set_insertBy)
  qed
qed

lemma sortBy_broaderFirst: "broaderFirst (sortBy byScope xs)"
  by (induction xs) (simp_all add: sortBy_def insertBy_broaderFirst)

lemma sortBy_head:
  assumes "xs \<noteq> []"
  obtains b rest where "sortBy byScope xs = b # rest" "b \<in> set xs"
    "\<forall>p \<in> set xs. scopePriority (p_scope p) \<le> scopePriority (p_scope b)"
proof -
  from assms obtain b rest where s: "sortBy byScope xs = b # rest"
    by (cases "sortBy byScope xs") (simp_all add: sortBy_Nil_iff)
  have mem: "set xs = insert b (set rest)"
    using set_sortBy [of byScope xs] s by simp
  have "broaderFirst (b # rest)" using sortBy_broaderFirst [of xs] s by simp
  then have "\<forall>p \<in> set rest. scopePriority (p_scope p) \<le> scopePriority (p_scope b)" by simp
  with mem have "\<forall>p \<in> set xs. scopePriority (p_scope p) \<le> scopePriority (p_scope b)" by simp
  with s mem that show thesis by blast
qed

lemma decide_returns: "decide request ps \<noteq> Inl fault"
proof (cases "filter (\<lambda>p. p_resource p = rq_resource request \<and> p_action p = rq_action request) ps = []")
  case True
  then show ?thesis by (simp add: decide_def split: option.split)
next
  case False
  then obtain b rest where
    "sortBy byScope (filter (\<lambda>p. p_resource p = rq_resource request \<and> p_action p = rq_action request) ps) = b # rest"
    by (rule sortBy_head)
  with False show ?thesis by (simp add: decide_def Let_def)
qed


section \<open>The gathered permissions of the seeded users\<close>

lemma gathered_root: "getAllUserPermissions seeded 100 ''root'' None
   = [mkPermission ''p3'' ''user:manage'' R_USER A_MANAGE S_ALL True True]"
  by (simp add: seeded_defs gather_defs)

lemma gathered_bob: "getAllUserPermissions seeded 100 ''bob'' None
   = [mkPermission ''p1'' ''user:read'' R_USER A_READ S_OWN True True,
      mkPermission ''p2'' ''user:read:all'' R_USER A_READ S_ALL True True]"
  by (simp add: seeded_defs gather_defs)

lemma gathered_dave: "getAllUserPermissions seeded 100 ''dave'' None = []"
  by (simp add: seeded_defs gather_defs)

lemma gathered_erin: "getAllUserPermissions seeded 100 ''erin'' None = [mkPermission ''p5'' ''file:manage:own'' R_FILE A_MANAGE S_OWN True False]"
  by (simp add: seeded_defs gather_defs)

section \<open>The MANAGE fallback\<close>

text \<open>
  Claim C4. For every resource R and action A: when the permissions gathered for the
  request hold no exact (R, A) entry but hold an (R, MANAGE) entry, checkPermission
  allows the request and reports a gathered (R, MANAGE) permission as the matched one,
  with its scope as the effective scope; when they hold neither, checkPermission
  denies with the reason "No permission for " followed by lower(R):lower(A).
\<close>

theorem checkPermission_manage_fallback:
  assumes "\<forall>p \<in> set (gathered db now request).
             \<not> (p_resource p = rq_resource request \<and> p_action p = rq_action request)"
  shows "((\<exists>m \<in> set (gathered db now request).
             p_resource m = rq_resource request \<and> p_action m = A_MANAGE) \<longrightarrow>
          (\<exists>m \<in> set (gathered db now request).
             p_resource m = rq_resource request \<and> p_action m = A_MANAGE \<and>
             checkPermission db now request =
               Inr \<lparr>allowed = True, reason = None, matchedPermission = Some m,
                    effectiveScope = Some (p_scope m)\<rparr>))
       \<and> ((\<forall>m \<in> set (gathered db now request).
             \<not> (p_resource m = rq_resource request \<and> p_action m = A_MANAGE)) \<longrightarrow>
          checkPermission db now request =
            Inr \<lparr>allowed = False,
                 reason = Some (''No permission for '' @
                                toLowerCase (resourceName (rq_resource request)) @ '':'' @
                                toLowerCase (actionName (rq_action request))),
                 matchedPermission = None, effectiveScope = None\<rparr>)"
proof -
  let ?ps = "gathered db now request"
  let ?isManage = "\<lambda>p. p_resource p = rq_resource request \<and> p_action p = A_MANAGE"
  have none: "filter (\<lambda>p. p_resource p = rq_resource request \<and> p_action p = rq_action request) ?ps = []"
    using assms by (simp add: filter_empty_conv)
  have yes: "\<exists>m \<in> set ?ps. ?isManage m \<and>
      checkPermission db now request =
        Inr \<lparr>allowed = True, reason = None, matchedPermission = Some m,
             effectiveScope = Some (p_scope m)\<rparr>"
    if "\<exists>m \<in> set ?ps. ?isManage m"
  proof -
    from that obtain m where m: "find ?isManage ?ps = Some m"
      by (cases "find ?isManage ?ps") (auto simp: find_None_iff)
    then have "m \<in> set ?ps" "?isManage m"
      by (auto simp: find_Some_iff)
    moreover have "checkPermission db now request =
        Inr \<lparr>allowed = True, reason = None, matchedPermission = Some m,
             effectiveScope = Some (p_scope m)\<rparr>"
      using none m by (simp add: checkPermission_def decide_def)
    ultimately show ?thesis by blast
  qed
  have no: "checkPermission db now request =
      Inr \<lparr>allowed = False,
           reason = Some (''No permission for '' @
                          toLowerCase (resourceName (rq_resource request)) @ '':'' @
                          toLowerCase (actionName (rq_action request))),
           matchedPermission = None, effectiveScope = None\<rparr>"
    if "\<forall>m \<in> set ?ps. \<not> ?isManage m"
  proof -
    from that have "find ?isManage ?ps = None" by (simp add: find_None_iff)
    with none show ?thesis
      by (simp add: checkPermission_def decide_def permissionCode_def)
  qed
  from yes no show ?thesis by blast
qed

theorem checkPermission_manage_fallback_witness:
  "checkPermission seeded 100
     \<lparr>rq_userId = ''root'', rq_resource = R_USER, rq_action = A_DELETE,
      rq_targetDepartmentId = None, rq_targetOwnerId = Some ''bob''\<rparr>
   = Inr \<lparr>allowed = True, reason = None,
          matchedPermission = Some (mkPermission ''p3'' ''user:manage'' R_USER A_MANAGE S_ALL True True),
          effectiveScope = Some S_ALL\<rparr>
   \<and> checkPermission seeded 100
     \<lparr>rq_userId = ''dave'', rq_resource = R_USER, rq_action = A_DELETE,
      rq_targetDepartmentId = None, rq_targetOwnerId = None\<rparr>
   = Inr \<lparr>allowed = False, reason = Some ''No permission for user:delete'',
          matchedPermission = None, effectiveScope = None\<rparr>"
  using checkPermission_manage_fallback [of seeded 100
      "\<lparr>rq_userId = ''root'', rq_resource = R_USER, rq_action = A_DELETE,
        rq_targetDepartmentId = None, rq_targetOwnerId = Some ''bob''\<rparr>"]
    checkPermission_manage_fallback [of seeded 100
      "\<lparr>rq_userId = ''dave'', rq_resource = R_USER, rq_action = A_DELETE,
        rq_targetDepartmentId = None, rq_targetOwnerId = None\<rparr>"]
  by (simp add: gathered_root gathered_dave mkPermission_def toLowerCase_def lowerChar_def)

section \<open>Scope precedence among exact matches\<close>

lemma decide_exact:
  assumes "\<exists>p \<in> set ps. p_resource p = rq_resource request \<and> p_action p = rq_action request"
  obtains best where
    "best \<in> set ps" "p_resource best = rq_resource request" "p_action best = rq_action request"
    "\<forall>p \<in> set ps. p_resource p = rq_resource request \<and> p_action p = rq_action request \<longrightarrow>
       scopePriority (p_scope p) \<le> scopePriority (p_scope best)"
    "decide request ps =
       Inr (if p_scope best = S_OWN \<and> truthy (rq_targetOwnerId request) \<and>
               rq_targetOwnerId request \<noteq> Some (rq_userId request)
            then \<lparr>allowed = False,
                  reason = Some ''Permission only allows access to own resources'',
                  matchedPermission = Some best, effectiveScope = Some (p_scope best)\<rparr>
            else \<lparr>allowed = True, reason = None, matchedPermission = Some best,
                  effectiveScope = Some (p_scope best)\<rparr>)"
proof -
  let ?ms = "filter (\<lambda>p. p_resource p = rq_resource request \<and> p_action p = rq_action request) ps"
  from assms have ne: "?ms \<noteq> []" by (simp add: filter_empty_conv)
  then obtain best rest where s: "sortBy byScope ?ms = best # rest" and mem: "best \<in> set ?ms"
    and top: "\<forall>p \<in> set ?ms. scopePriority (p_scope p) \<le> scopePriority (p_scope best)"
    by (rule sortBy_head)
  have d: "decide request ps =
       Inr (if p_scope best = S_OWN \<and> truthy (rq_targetOwnerId request) \<and>
               rq_targetOwnerId request \<noteq> Some (rq_userId request)
            then \<lparr>allowed = False,
                  reason = Some ''Permission only allows access to own resources'',
                  matchedPermission = Some best, effectiveScope = Some (p_scope best)\<rparr>
            else \<lparr>allowed = True, reason = None, matchedPermission = Some best,
                  effectiveScope = Some (p_scope best)\<rparr>)"
    using ne s by (simp add: decide_def Let_def)
  from mem have m: "best \<in> set ps" "p_resource best = rq_resource request"
      "p_action best = rq_action request"
    by simp_all
  from top have t: "\<forall>p \<in> set ps.
      p_resource p = rq_resource request \<and> p_action p = rq_action request \<longrightarrow>
      scopePriority (p_scope p) \<le> scopePriority (p_scope best)"
    by simp
  show thesis by (rule that [OF m t d])
qed

lemma scopePriority_top: "scopePriority s \<le> 3" "scopePriority s = 3 \<longleftrightarrow> s = S_ALL"
  by (cases s; simp)+

text \<open>
  Claim C5. When the gathered permissions hold one entry or more that match the
  requested (resource, action) exactly, checkPermission selects a matching entry whose
  scope priority (ALL 3, DEPARTMENT 2, OWN 1) is the greatest among the matching
  entries, reports it as matched with its scope as the effective scope, and allows
  the request unless that scope is OWN and a target owner other than the user was
  given. Whichever of several entries of the greatest priority is selected, the
  decision is the one stated. In particular, when an (R, A, ALL) entry is among the
  matches (next to an (R, A, OWN) entry or not), the request is allowed with effective
  scope ALL.
\<close>

theorem checkPermission_scope_precedence:
  assumes "\<exists>p \<in> set (gathered db now request).
             p_resource p = rq_resource request \<and> p_action p = rq_action request"
  shows "\<exists>best \<in> set (gathered db now request).
           p_resource best = rq_resource request \<and> p_action best = rq_action request \<and>
           (\<forall>p \<in> set (gathered db now request).
              p_resource p = rq_resource request \<and> p_action p = rq_action request \<longrightarrow>
              scopePriority (p_scope p) \<le> scopePriority (p_scope best)) \<and>
           checkPermission db now request =
             Inr (if p_scope best = S_OWN \<and> truthy (rq_targetOwnerId request) \<and>
                     rq_targetOwnerId request \<noteq> Some (rq_userId request)
                  then \<lparr>allowed = False,
                        reason = Some ''Permission only allows access to own resources'',
                        matchedPermission = Some best, effectiveScope = Some (p_scope best)\<rparr>
                  else \<lparr>allowed = True, reason = None, matchedPermission = Some best,
                        effectiveScope = Some (p_scope best)\<rparr>) \<and>
           ((\<exists>p \<in> set (gathered db now request).
               p_resource p = rq_resource request \<and> p_action p = rq_action request \<and>
               p_scope p = S_ALL) \<longrightarrow>
            p_scope best = S_ALL \<and>
            checkPermission db now request =
              Inr \<lparr>allowed = True, reason = None, matchedPermission = Some best,
                   effectiveScope = Some S_ALL\<rparr>)"
proof -
  from assms obtain best where b: "best \<in> set (gathered db now request)"
      "p_resource best = rq_resource request" "p_action best = rq_action request"
    and top: "\<forall>p \<in> set (gathered db now request).
        p_resource p = rq_resource request \<and> p_action p = rq_action request \<longrightarrow>
        scopePriority (p_scope p) \<le> scopePriority (p_scope best)"
    and d: "decide request (gathered db now request) =
       Inr (if p_scope best = S_OWN \<and> truthy (rq_targetOwnerId request) \<and>
               rq_targetOwnerId request \<noteq> Some (rq_userId request)
            then \<lparr>allowed = False,
                  reason = Some ''Permission only allows access to own resources'',
                  matchedPermission = Some best, effectiveScope = Some (p_scope best)\<rparr>
            else \<lparr>allowed = True, reason = None, matchedPermission = Some best,
                  effectiveScope = Some (p_scope best)\<rparr>)"
    by (rule decide_exact)
  have all: "p_scope best = S_ALL"
    if "\<exists>p \<in> set (gathered db now request).
          p_resource p = rq_resource request \<and> p_action p = rq_action request \<and> p_scope p = S_ALL"
  proof -
    from that top have "3 \<le> scopePriority (p_scope best)" by fastforce
    with scopePriority_top(1) [of "p_scope best"] have "scopePriority (p_scope best) = 3" by simp
    then show ?thesis by (simp add: scopePriority_top(2))
  qed
  show ?thesis
  proof (rule bexI [of _ best])
    show "best \<in> set (gathered db now request)" by (fact b(1))
    show "p_resource best = rq_resource request \<and> p_action best = rq_action request \<and>
           (\<forall>p \<in> set (gathered db now request).
              p_resource p = rq_resource request \<and> p_action p = rq_action request \<longrightarrow>
              scopePriority (p_scope p) \<le> scopePriority (p_scope best)) \<and>
           checkPermission db now request =
             Inr (if p_scope best = S_OWN \<and> truthy (rq_targetOwnerId request) \<and>
                     rq_targetOwnerId request \<noteq> Some (rq_userId request)
                  then \<lparr>allowed = False,
                        reason = Some ''Permission only allows access to own resources'',
                        matchedPermission = Some best, effectiveScope = Some (p_scope best)\<rparr>
                  else \<lparr>allowed = True, reason = None, matchedPermission = Some best,
                        effectiveScope = Some (p_scope best)\<rparr>) \<and>
           ((\<exists>p \<in> set (gathered db now request).
               p_resource p = rq_resource request \<and> p_action p = rq_action request \<and>
               p_scope p = S_ALL) \<longrightarrow>
            p_scope best = S_ALL \<and>
            checkPermission db now request =
              Inr \<lparr>allowed = True, reason = None, matchedPermission = Some best,
                   effectiveScope = Some S_ALL\<rparr>)"
      using b(2,3) top d all by (simp add: checkPermission_def)
  qed
qed

theorem checkPermission_scope_precedence_witness:
  "checkPermission seeded 100
     \<lparr>rq_userId = ''bob'', rq_resource = R_USER, rq_action = A_READ,
      rq_targetDepartmentId = None, rq_targetOwnerId = Some ''alice''\<rparr>
   = Inr \<lparr>allowed = True, reason = None,
          matchedPermission =
            Some (mkPermission ''p2'' ''user:read:all'' R_USER A_READ S_ALL True True),
          effectiveScope = Some S_ALL\<rparr>"
  using checkPermission_scope_precedence [of seeded 100
      "\<lparr>rq_userId = ''bob'', rq_resource = R_USER, rq_action = A_READ,
        rq_targetDepartmentId = None, rq_targetOwnerId = Some ''alice''\<rparr>"]
  by (auto simp: gathered_bob mkPermission_def)

section \<open>The restriction of scope OWN\<close>

text \<open>
  On the path of an exact match the restriction holds: when every exact match has
  scope OWN and a non-empty target owner other than the user is given, the request is
  denied and the matched permission is reported.
\<close>

lemma own_restriction_on_exact_match:
  assumes "\<exists>p \<in> set (gathered db now request).
             p_resource p = rq_resource request \<and> p_action p = rq_action request"
    and "\<forall>p \<in> set (gathered db now request).
             p_resource p = rq_resource request \<and> p_action p = rq_action request \<longrightarrow>
             p_scope p = S_OWN"
    and "rq_targetOwnerId request = Some owner" and "owner \<noteq> []"
    and "owner \<noteq> rq_userId request"
  shows "\<exists>best \<in> set (gathered db now request).
           checkPermission db now request =
             Inr \<lparr>allowed = False,
                  reason = Some ''Permission only allows access to own resources'',
                  matchedPermission = Some best, effectiveScope = Some S_OWN\<rparr>"
proof -
  from assms(1) obtain best where b: "best \<in> set (gathered db now request)"
      "p_resource best = rq_resource request" "p_action best = rq_action request"
    and d: "decide request (gathered db now request) =
       Inr (if p_scope best = S_OWN \<and> truthy (rq_targetOwnerId request) \<and>
               rq_targetOwnerId request \<noteq> Some (rq_userId request)
            then \<lparr>allowed = False,
                  reason = Some ''Permission only allows access to own resources'',
                  matchedPermission = Some best, effectiveScope = Some (p_scope best)\<rparr>
            else \<lparr>allowed = True, reason = None, matchedPermission = Some best,
                  effectiveScope = Some (p_scope best)\<rparr>)"
    by (rule decide_exact)
  from b assms(2) have "p_scope best = S_OWN" by blast
  with d assms(3-5) b(1) show ?thesis
    by (auto simp: checkPermission_def truthy_def)
qed

text \<open>
  Claim C1. A request whose selected permission has scope OWN and which names a target
  owner other than the user is to be denied with the own-resources reason, whether
  the permission was selected as an exact match or by the MANAGE fallback. The
  fallback returns before the scope is validated: erin holds only
  p5 = (FILE, MANAGE, OWN), asks to delete a file whose owner is bob, and is allowed,
  with effective scope OWN reported.
\<close>

theorem manage_fallback_ignores_own_scope:
  "checkPermission seeded 100
     \<lparr>rq_userId = ''erin'', rq_resource = R_FILE, rq_action = A_DELETE,
      rq_targetDepartmentId = None, rq_targetOwnerId = Some ''bob''\<rparr>
   = Inr \<lparr>allowed = True, reason = None,
          matchedPermission =
            Some (mkPermission ''p5'' ''file:manage:own'' R_FILE A_MANAGE S_OWN True False),
          effectiveScope = Some S_OWN\<rparr>"
  by (simp add: checkPermission_def decide_def gathered_erin mkPermission_def)

section \<open>What is gathered, as a set\<close>

lemma activePermissionOf_Some:
  "activePermissionOf db rp = Some p \<Longrightarrow>
     findPermission db (p_id p) = Some p \<and> p_isActive p \<and> p_id p = rp_permissionId rp"
  by (auto simp: activePermissionOf_def findPermission_def find_Some_iff
           split: option.splits if_splits)

lemma set_map_filter_conv:
  "set (List.map_filter f xs) = {y. \<exists>x \<in> set xs. f x = Some y}"
  by (induction xs) (auto split: option.splits)

lemma set_includedPermissions:
  "set (includedPermissions db rid) =
     {p. \<exists>rp \<in> set (rolePermission db). rp_roleId rp = rid \<and> activePermissionOf db rp = Some p}"
  by (auto simp: includedPermissions_def set_map_filter_conv)

lemma includedPermissions_found:
  "p \<in> set (includedPermissions db rid) \<Longrightarrow> findPermission db (p_id p) = Some p"
  by (auto simp: set_includedPermissions dest: activePermissionOf_Some)

lemma includedPermissions_active:
  "p \<in> set (includedPermissions db rid) \<Longrightarrow> p_isActive p"
  by (auto simp: set_includedPermissions dest: activePermissionOf_Some)

lemma set_addPermission:
  assumes "\<forall>q \<in> set acc. p_id q = p_id p \<longrightarrow> q = p"
  shows "set (addPermission acc p) = insert p (set acc)"
  using assms by (auto simp: addPermission_def)

lemma set_foldl_addPermission:
  assumes "\<forall>p \<in> set acc \<union> set xs. \<forall>q \<in> set acc \<union> set xs. p_id p = p_id q \<longrightarrow> p = q"
  shows "set (foldl addPermission acc xs) = set acc \<union> set xs"
  using assms
proof (induction xs arbitrary: acc)
  case Nil
  then show ?case by simp
next
  case (Cons x xs)
  have step: "set (addPermission acc x) = insert x (set acc)"
    using Cons.prems by (intro set_addPermission) auto
  have "set (foldl addPermission (addPermission acc x) xs) = set (addPermission acc x) \<union> set xs"
    using Cons.prems by (intro Cons.IH) (simp add: step)
  with step show ?case by simp
qed

lemma set_getAllUserPermissions:
  "set (getAllUserPermissions db now userId departmentId) =
     (\<Union>ur \<in> {ur \<in> set (userRole db). whereUserRole db now userId departmentId ur}.
        set (includedPermissions db (ur_roleId ur)))"
proof -
  let ?xs = "concat (map (\<lambda>ur. includedPermissions db (ur_roleId ur))
                 (filter (whereUserRole db now userId departmentId) (userRole db)))"
  have found: "findPermission db (p_id p) = Some p" if "p \<in> set ?xs" for p
    using that by (auto dest: includedPermissions_found)
  have "\<forall>p \<in> set ?xs. \<forall>q \<in> set ?xs. p_id p = p_id q \<longrightarrow> p = q"
  proof (intro ballI impI)
    fix p q assume "p \<in> set ?xs" "q \<in> set ?xs" "p_id p = p_id q"
    with found [of p] found [of q] have "Some p = Some q" by metis
    then show "p = q" by (rule option.inject [THEN iffD1])
  qed
  then have "set (foldl addPermission [] ?xs) = set [] \<union> set ?xs"
    by (intro set_foldl_addPermission) simp
  then show ?thesis by (auto simp: getAllUserPermissions_def Let_def)
qed

lemma userRole_update_find [simp]:
  "findRole (db\<lparr>userRole := rows\<rparr>) = findRole db"
  "findPermission (db\<lparr>userRole := rows\<rparr>) = findPermission db"
  by (simp_all add: fun_eq_iff findRole_def findPermission_def)

lemma userRole_update_activePermissionOf [simp]:
  "activePermissionOf (db\<lparr>userRole := rows\<rparr>) = activePermissionOf db"
  by (simp add: fun_eq_iff activePermissionOf_def)

lemma userRole_update_includedPermissions [simp]:
  "includedPermissions (db\<lparr>userRole := rows\<rparr>) = includedPermissions db"
  by (simp add: fun_eq_iff includedPermissions_def)

lemma userRole_update_where [simp]:
  "roleIsActive (db\<lparr>userRole := rows\<rparr>) = roleIsActive db"
  "whereUserRole (db\<lparr>userRole := rows\<rparr>) = whereUserRole db"
  "withDetails (db\<lparr>userRole := rows\<rparr>) = withDetails db"
  by (simp_all add: fun_eq_iff roleIsActive_def whereUserRole_def withDetails_def
      split: option.split)

lemma expired_row_rejected:
  assumes "ur_expiresAt ur = Some t" "t \<le> now"
  shows "\<not> whereUserRole db now userId departmentId ur"
    and "\<not> (ur_userId ur = userId \<and> ur_isActive ur \<and> (ur_expiresAt ur = None \<or> expiresAfter now ur))"
  using assms by (auto simp: whereUserRole_def expiresAfter_def)

lemma effective_row_admitted:
  assumes "ur_expiresAt ur = None \<or> (\<exists>t. ur_expiresAt ur = Some t \<and> now < t)"
    and "ur_userId ur = userId" "ur_isActive ur" "roleIsActive db (ur_roleId ur)"
    and "truthy departmentId \<longrightarrow> ur_departmentId ur = None \<or> ur_departmentId ur = departmentId"
  shows "whereUserRole db now userId departmentId ur"
  using assms by (auto simp: whereUserRole_def expiresAfter_def)

lemma whereUserRole_userId:
  "whereUserRole db now userId departmentId ur \<Longrightarrow> ur_userId ur = userId"
  by (simp add: whereUserRole_def)

lemma whereUserRole_global:
  assumes "ur_userId ur = userId" "ur_isActive ur" "roleIsActive db (ur_roleId ur)"
    and "ur_departmentId ur = None" "ur_expiresAt ur = None \<or> expiresAfter now ur"
  shows "whereUserRole db now userId departmentId ur"
  using assms by (auto simp: whereUserRole_def)

lemma whereUserRole_scoped:
  assumes "ur_userId ur = userId" "ur_isActive ur" "roleIsActive db (ur_roleId ur)"
    and "ur_departmentId ur = Some D" "ur_expiresAt ur = None \<or> expiresAfter now ur"
  shows "whereUserRole db now userId departmentId ur \<longleftrightarrow>
           (truthy departmentId \<longrightarrow> departmentId = Some D)"
  using assms by (auto simp: whereUserRole_def)

section \<open>hasRole\<close>

lemma hasRole_iff:
  "hasRole db now userId roleCode departmentId \<longleftrightarrow>
     (\<exists>ur \<in> set (userRole db). whereHasRole db now userId roleCode departmentId ur)"
  by (auto simp: hasRole_def Let_def filter_empty_conv)

text \<open>
  What the two shapes of the filter come to: without a department the row must be
  active and unexpired; with one it must be active and global or of that department,
  and its expiry is not looked at.
\<close>

lemma hasRole_without_department:
  "hasRole db now userId roleCode None \<longleftrightarrow>
     (\<exists>ur \<in> set (userRole db).
        ur_userId ur = userId \<and> ur_isActive ur \<and>
        (ur_expiresAt ur = None \<or> expiresAfter now ur) \<and>
        (\<exists>r. findRole db (ur_roleId ur) = Some r \<and> r_code r = roleCode \<and> r_isActive r))"
  unfolding hasRole_iff whereHasRole_def by (auto split: option.splits)

lemma hasRole_with_department:
  "hasRole db now userId roleCode (Some d) \<longleftrightarrow>
     (\<exists>ur \<in> set (userRole db).
        ur_userId ur = userId \<and> ur_isActive ur \<and>
        (ur_departmentId ur = Some d \<or> ur_departmentId ur = None) \<and>
        (\<exists>r. findRole db (ur_roleId ur) = Some r \<and> r_code r = roleCode \<and> r_isActive r))"
  unfolding hasRole_iff whereHasRole_def by (auto split: option.splits)

text \<open>
  Claim C2. hasRole is to answer true exactly when the user has a currently effective
  row (active, and without expiry or with a later one) of an active role of that code,
  global or of the supplied department when one is supplied. With a department
  supplied the expiry alternatives are lost: carol's only row, manager in D1, expired at 50; at time 100 hasRole with
  department D1 answers true, while hasRole without a department, getUserRoles and
  getAllUserPermissions for D1 all treat the row as expired.
\<close>

theorem hasRole_with_department_ignores_expiry:
  "hasRole seeded 100 ''carol'' ''manager'' (Some ''D1'') = True
   \<and> hasRole seeded 100 ''carol'' ''manager'' None = False
   \<and> getUserRoles seeded 100 ''carol'' = []
   \<and> getAllUserPermissions seeded 100 ''carol'' (Some ''D1'') = []"
  by (simp add: hasRole_def whereHasRole_def getUserRoles_def seeded_defs gather_defs)

section \<open>Global and department-scoped assignments\<close>

lemma gathered_alice:
  "getAllUserPermissions seeded 100 ''alice'' None
     = [mkPermission ''p1'' ''user:read'' R_USER A_READ S_OWN True True,
        mkPermission ''p4'' ''expense-claim:approve'' R_EXPENSE_CLAIM A_APPROVE S_DEPARTMENT True True]"
  by (simp add: seeded_defs gather_defs)

lemma included_employee:
  "includedPermissions seeded ''r1'' = [mkPermission ''p1'' ''user:read'' R_USER A_READ S_OWN True True]"
  by (simp add: seeded_defs includedPermissions_def activePermissionOf_def findPermission_def)

lemma included_manager:
  "includedPermissions seeded ''r2''
     = [mkPermission ''p4'' ''expense-claim:approve'' R_EXPENSE_CLAIM A_APPROVE S_DEPARTMENT True True]"
  by (simp add: seeded_defs includedPermissions_def activePermissionOf_def findPermission_def)

text \<open>
  Claim C3, as amended. A user whose only assignments are a global one to role X and
  one scoped to department D to role Y, both active and unexpired, with both roles
  active: gathering for department D yields the permissions of X and of Y; gathering
  for another (non-empty) department yields those of X only; gathering without a
  department applies no department filter and yields those of X and of Y. The
  permissions of a role are the active permissions granted to it.
\<close>

theorem department_union:
  assumes gx: "gx \<in> set (userRole db)" and gy: "gy \<in> set (userRole db)"
    and only: "\<forall>ur \<in> set (userRole db). ur_userId ur = userId \<longrightarrow> ur = gx \<or> ur = gy"
    and x: "ur_userId gx = userId" "ur_isActive gx" "roleIsActive db (ur_roleId gx)"
      "ur_departmentId gx = None" "ur_expiresAt gx = None \<or> expiresAfter now gx"
    and y: "ur_userId gy = userId" "ur_isActive gy" "roleIsActive db (ur_roleId gy)"
      "ur_departmentId gy = Some D" "ur_expiresAt gy = None \<or> expiresAfter now gy"
    and D: "D \<noteq> []"
  shows "set (getAllUserPermissions db now userId (Some D))
           = set (includedPermissions db (ur_roleId gx)) \<union> set (includedPermissions db (ur_roleId gy))
       \<and> (\<forall>D'. D' \<noteq> D \<and> D' \<noteq> [] \<longrightarrow>
            set (getAllUserPermissions db now userId (Some D'))
              = set (includedPermissions db (ur_roleId gx)))
       \<and> set (getAllUserPermissions db now userId None)
           = set (includedPermissions db (ur_roleId gx)) \<union> set (includedPermissions db (ur_roleId gy))"
proof -
  have wx: "whereUserRole db now userId d gx" for d
    by (rule whereUserRole_global [OF x])
  have wy: "whereUserRole db now userId d gy \<longleftrightarrow> (truthy d \<longrightarrow> d = Some D)" for d
    by (rule whereUserRole_scoped [OF y])
  have sub: "{ur \<in> set (userRole db). whereUserRole db now userId d ur} \<subseteq> {gx, gy}" for d
    using only by (auto dest: whereUserRole_userId)
  have both: "{ur \<in> set (userRole db). whereUserRole db now userId d ur} = {gx, gy}"
    if "truthy d \<longrightarrow> d = Some D" for d
  proof
    show "{ur \<in> set (userRole db). whereUserRole db now userId d ur} \<subseteq> {gx, gy}" by (rule sub)
    show "{gx, gy} \<subseteq> {ur \<in> set (userRole db). whereUserRole db now userId d ur}"
      using gx gy wx [of d] wy [of d] that by simp
  qed
  have one: "{ur \<in> set (userRole db). whereUserRole db now userId (Some D') ur} = {gx}"
    if "D' \<noteq> D" "D' \<noteq> []" for D'
  proof
    have "\<not> whereUserRole db now userId (Some D') gy"
      using that by (simp add: wy truthy_def)
    with sub [of "Some D'"]
    show "{ur \<in> set (userRole db). whereUserRole db now userId (Some D') ur} \<subseteq> {gx}"
      by blast
    show "{gx} \<subseteq> {ur \<in> set (userRole db). whereUserRole db now userId (Some D') ur}"
      using gx wx [of "Some D'"] by simp
  qed
  have "set (getAllUserPermissions db now userId (Some D))
           = set (includedPermissions db (ur_roleId gx)) \<union> set (includedPermissions db (ur_roleId gy))"
    using both [of "Some D"] by (simp add: set_getAllUserPermissions)
  moreover have "set (getAllUserPermissions db now userId None)
           = set (includedPermissions db (ur_roleId gx)) \<union> set (includedPermissions db (ur_roleId gy))"
    using both [of None] by (simp add: set_getAllUserPermissions truthy_def)
  moreover have "set (getAllUserPermissions db now userId (Some D'))
           = set (includedPermissions db (ur_roleId gx))"
    if "D' \<noteq> D \<and> D' \<noteq> []" for D'
    using one [of D'] that by (simp add: set_getAllUserPermissions)
  ultimately show ?thesis by blast
qed

theorem department_union_witness:
  "set (getAllUserPermissions seeded 100 ''alice'' (Some ''D1''))
     = {mkPermission ''p1'' ''user:read'' R_USER A_READ S_OWN True True,
        mkPermission ''p4'' ''expense-claim:approve'' R_EXPENSE_CLAIM A_APPROVE S_DEPARTMENT True True}
   \<and> set (getAllUserPermissions seeded 100 ''alice'' (Some ''D2''))
     = {mkPermission ''p1'' ''user:read'' R_USER A_READ S_OWN True True}
   \<and> set (getAllUserPermissions seeded 100 ''alice'' None)
     = {mkPermission ''p1'' ''user:read'' R_USER A_READ S_OWN True True,
        mkPermission ''p4'' ''expense-claim:approve'' R_EXPENSE_CLAIM A_APPROVE S_DEPARTMENT True True}"
proof -
  let ?gx = "mkAssignment ''a2'' ''alice'' ''r1'' None None True"
  let ?gy = "mkAssignment ''a3'' ''alice'' ''r2'' (Some ''D1'') None True"
  have rx: "ur_roleId ?gx = ''r1''" and ry: "ur_roleId ?gy = ''r2''"
    by (simp_all add: mkAssignment_def)
  have rows: "?gx \<in> set (userRole seeded)" "?gy \<in> set (userRole seeded)"
    by (simp_all add: seeded_def)
  have only: "\<forall>ur \<in> set (userRole seeded). ur_userId ur = ''alice'' \<longrightarrow> ur = ?gx \<or> ur = ?gy"
    by (simp add: seeded_def mkAssignment_def)
  have act: "roleIsActive seeded (ur_roleId ?gx)" "roleIsActive seeded (ur_roleId ?gy)"
    by (simp_all add: rx ry seeded_def mkRole_def roleIsActive_def findRole_def)
  have fx: "ur_userId ?gx = ''alice''" "ur_isActive ?gx" "ur_departmentId ?gx = None"
      "ur_expiresAt ?gx = None \<or> expiresAfter 100 ?gx"
    by (simp_all add: mkAssignment_def)
  have fy: "ur_userId ?gy = ''alice''" "ur_isActive ?gy" "ur_departmentId ?gy = Some ''D1''"
      "ur_expiresAt ?gy = None \<or> expiresAfter 100 ?gy"
    by (simp_all add: mkAssignment_def)
  have d: "''D1'' \<noteq> []" by simp
  note inst = department_union [OF rows only fx(1,2) act(1) fx(3,4) fy(1,2) act(2) fy(3,4) d]
  have other: "''D2'' \<noteq> ''D1'' \<and> ''D2'' \<noteq> []" by simp
  from inst have a: "set (getAllUserPermissions seeded 100 ''alice'' (Some ''D1''))
      = set (includedPermissions seeded ''r1'') \<union> set (includedPermissions seeded ''r2'')"
    unfolding rx ry by (rule conjunct1)
  from inst have rest: "\<forall>D'. D' \<noteq> ''D1'' \<and> D' \<noteq> [] \<longrightarrow>
      set (getAllUserPermissions seeded 100 ''alice'' (Some D')) = set (includedPermissions seeded ''r1'')"
    unfolding rx ry by (rule conjunct2 [THEN conjunct1])
  have b: "set (getAllUserPermissions seeded 100 ''alice'' (Some ''D2''))
      = set (includedPermissions seeded ''r1'')"
    by (rule rest [rule_format, OF other])
  from inst have c: "set (getAllUserPermissions seeded 100 ''alice'' None)
      = set (includedPermissions seeded ''r1'') \<union> set (includedPermissions seeded ''r2'')"
    unfolding rx ry by (rule conjunct2 [THEN conjunct2])
  show ?thesis
    unfolding a b c included_employee included_manager by auto
qed

text \<open>
  The claim as stated has the gathering without a department yield X's permissions
  only. For alice (employee globally, manager in D1) it yields the manager's
  permission too.
\<close>

theorem no_department_gathers_every_assignment:
  "filter (\<lambda>ur. ur_userId ur = ''alice'') (userRole seeded)
     = [mkAssignment ''a2'' ''alice'' ''r1'' None None True,
        mkAssignment ''a3'' ''alice'' ''r2'' (Some ''D1'') None True]
   \<and> getAllUserPermissions seeded 100 ''alice'' None
     = [mkPermission ''p1'' ''user:read'' R_USER A_READ S_OWN True True,
        mkPermission ''p4'' ''expense-claim:approve'' R_EXPENSE_CLAIM A_APPROVE S_DEPARTMENT True True]
   \<and> includedPermissions seeded ''r1''
     = [mkPermission ''p1'' ''user:read'' R_USER A_READ S_OWN True True]
   \<and> set (getAllUserPermissions seeded 100 ''alice'' None) \<noteq> set (includedPermissions seeded ''r1'')"
proof -
  have "filter (\<lambda>ur. ur_userId ur = ''alice'') (userRole seeded)
     = [mkAssignment ''a2'' ''alice'' ''r1'' None None True,
        mkAssignment ''a3'' ''alice'' ''r2'' (Some ''D1'') None True]"
    by (simp add: seeded_def mkAssignment_def)
  then show ?thesis
    by (simp add: gathered_alice included_employee mkPermission_def)
qed

section \<open>Expiry\<close>

text \<open>
  Claim C6. A row whose expiresAt is not later than the evaluation time contributes
  nothing: getAllUserPermissions and getUserRoles return what they return on the store
  without the row. The same row with expiresAt null or later, when it is the user's,
  active, of an active role and (if a department is given) global or of that
  department, contributes all permissions of its role to getAllUserPermissions, and
  appears in getUserRoles with exactly those permissions.
\<close>

theorem expiry_gates_contribution:
  "(\<forall>t. t \<le> now \<longrightarrow>
      getAllUserPermissions (db\<lparr>userRole := before @ ur\<lparr>ur_expiresAt := Some t\<rparr> # after\<rparr>)
        now userId departmentId
      = getAllUserPermissions (db\<lparr>userRole := before @ after\<rparr>) now userId departmentId
    \<and> getUserRoles (db\<lparr>userRole := before @ ur\<lparr>ur_expiresAt := Some t\<rparr> # after\<rparr>) now userId
      = getUserRoles (db\<lparr>userRole := before @ after\<rparr>) now userId)
   \<and> (\<forall>e. (e = None \<or> (\<exists>t. e = Some t \<and> now < t)) \<and>
          ur_userId ur = userId \<and> ur_isActive ur \<and> roleIsActive db (ur_roleId ur) \<and>
          (truthy departmentId \<longrightarrow>
             ur_departmentId ur = None \<or> ur_departmentId ur = departmentId) \<longrightarrow>
        set (includedPermissions db (ur_roleId ur))
          \<subseteq> set (getAllUserPermissions
                   (db\<lparr>userRole := before @ ur\<lparr>ur_expiresAt := e\<rparr> # after\<rparr>)
                   now userId departmentId)
        \<and> (\<exists>row \<in> set (getUserRoles
                   (db\<lparr>userRole := before @ ur\<lparr>ur_expiresAt := e\<rparr> # after\<rparr>) now userId).
              urd_userRole row = ur\<lparr>ur_expiresAt := e\<rparr> \<and>
              rwp_permissions (urd_role row) = includedPermissions db (ur_roleId ur)))"
proof (intro conjI allI impI)
  fix t assume t: "t \<le> now"
  let ?x = "ur\<lparr>ur_expiresAt := Some t\<rparr>"
  have x: "ur_expiresAt ?x = Some t" by simp
  show "getAllUserPermissions (db\<lparr>userRole := before @ ?x # after\<rparr>) now userId departmentId
      = getAllUserPermissions (db\<lparr>userRole := before @ after\<rparr>) now userId departmentId"
    using expired_row_rejected(1) [OF x t, of db userId departmentId]
    by (simp add: getAllUserPermissions_def)
  show "getUserRoles (db\<lparr>userRole := before @ ?x # after\<rparr>) now userId
      = getUserRoles (db\<lparr>userRole := before @ after\<rparr>) now userId"
    using t by (simp add: getUserRoles_def expiresAfter_def)
next
  fix e
  assume a: "(e = None \<or> (\<exists>t. e = Some t \<and> now < t)) \<and>
          ur_userId ur = userId \<and> ur_isActive ur \<and> roleIsActive db (ur_roleId ur) \<and>
          (truthy departmentId \<longrightarrow>
             ur_departmentId ur = None \<or> ur_departmentId ur = departmentId)"
  let ?x = "ur\<lparr>ur_expiresAt := e\<rparr>"
  let ?db = "db\<lparr>userRole := before @ ?x # after\<rparr>"
  have adm: "whereUserRole db now userId departmentId ?x"
    using a by (intro effective_row_admitted) simp_all
  show "set (includedPermissions db (ur_roleId ur))
          \<subseteq> set (getAllUserPermissions ?db now userId departmentId)"
    using adm by (auto simp: set_getAllUserPermissions)
  from a obtain r where r: "findRole db (ur_roleId ur) = Some r" "r_isActive r"
    by (auto simp: roleIsActive_def split: option.splits)
  have wd: "withDetails db ?x =
      Some \<lparr>urd_userRole = ?x,
            urd_role = \<lparr>rwp_role = r,
                        rwp_permissions = includedPermissions db (ur_roleId ur)\<rparr>\<rparr>"
    using r by (simp add: withDetails_def)
  have keep: "ur_userId ?x = userId \<and> ur_isActive ?x \<and>
      (ur_expiresAt ?x = None \<or> expiresAfter now ?x)"
    using a by (auto simp: expiresAfter_def)
  have "\<lparr>urd_userRole = ?x,
         urd_role = \<lparr>rwp_role = r,
                     rwp_permissions = includedPermissions db (ur_roleId ur)\<rparr>\<rparr>
        \<in> set (getUserRoles ?db now userId)"
    unfolding getUserRoles_def set_map_filter_conv using wd keep by auto
  then show "\<exists>row \<in> set (getUserRoles ?db now userId).
              urd_userRole row = ?x \<and>
              rwp_permissions (urd_role row) = includedPermissions db (ur_roleId ur)"
    by (rule bexI [rotated]) simp
qed

theorem expiry_gates_contribution_witness:
  "getAllUserPermissions
     (seeded\<lparr>userRole := [] @ (mkAssignment ''a6'' ''carol'' ''r2'' (Some ''D1'') None True)
                                \<lparr>ur_expiresAt := Some 50\<rparr> # []\<rparr>) 100 ''carol'' (Some ''D1'')
   = []
   \<and> mkPermission ''p4'' ''expense-claim:approve'' R_EXPENSE_CLAIM A_APPROVE S_DEPARTMENT True True
     \<in> set (getAllUserPermissions
        (seeded\<lparr>userRole := [] @ (mkAssignment ''a6'' ''carol'' ''r2'' (Some ''D1'') None True)
                                   \<lparr>ur_expiresAt := Some 200\<rparr> # []\<rparr>) 100 ''carol'' (Some ''D1''))"
proof -
  let ?ur = "mkAssignment ''a6'' ''carol'' ''r2'' (Some ''D1'') None True"
  note inst = expiry_gates_contribution [where now = 100 and db = seeded and before = "[]"
      and ur = ?ur and after = "[]" and userId = "''carol''" and departmentId = "Some ''D1''"]
  have past: "(50::int) \<le> 100" by simp
  from inst past have
    "getAllUserPermissions (seeded\<lparr>userRole := [] @ ?ur\<lparr>ur_expiresAt := Some 50\<rparr> # []\<rparr>)
       100 ''carol'' (Some ''D1'')
     = getAllUserPermissions (seeded\<lparr>userRole := [] @ []\<rparr>) 100 ''carol'' (Some ''D1'')"
    by blast
  then have a: "getAllUserPermissions (seeded\<lparr>userRole := [] @ ?ur\<lparr>ur_expiresAt := Some 50\<rparr> # []\<rparr>)
       100 ''carol'' (Some ''D1'') = []"
    by (simp add: getAllUserPermissions_def)
  have pre: "(Some (200::int) = None \<or> (\<exists>t. Some 200 = Some t \<and> (100::int) < t)) \<and>
          ur_userId ?ur = ''carol'' \<and> ur_isActive ?ur \<and> roleIsActive seeded (ur_roleId ?ur) \<and>
          (truthy (Some ''D1'') \<longrightarrow>
             ur_departmentId ?ur = None \<or> ur_departmentId ?ur = Some ''D1'')"
    by (simp add: seeded_defs roleIsActive_def findRole_def)
  from inst pre have
    "set (includedPermissions seeded (ur_roleId ?ur))
       \<subseteq> set (getAllUserPermissions
                (seeded\<lparr>userRole := [] @ ?ur\<lparr>ur_expiresAt := Some 200\<rparr> # []\<rparr>)
                100 ''carol'' (Some ''D1''))"
    by blast
  moreover have "mkPermission ''p4'' ''expense-claim:approve'' R_EXPENSE_CLAIM A_APPROVE S_DEPARTMENT True True
      \<in> set (includedPermissions seeded (ur_roleId ?ur))"
    by (simp add: seeded_defs includedPermissions_def activePermissionOf_def findPermission_def)
  ultimately show ?thesis using a by blast
qed

section \<open>Inactive permissions\<close>

lemma getAllUserPermissions_active:
  "p \<in> set (getAllUserPermissions db now userId departmentId) \<Longrightarrow> p_isActive p"
  by (auto simp: set_getAllUserPermissions dest: includedPermissions_active)

lemma getUserRoles_active:
  assumes "row \<in> set (getUserRoles db now userId)" "p \<in> set (rwp_permissions (urd_role row))"
  shows "p_isActive p"
proof -
  from assms(1) obtain ur where "withDetails db ur = Some row"
    by (auto simp: getUserRoles_def set_map_filter_conv)
  then have "rwp_permissions (urd_role row) = includedPermissions db (ur_roleId ur)"
    by (auto simp: withDetails_def split: option.splits if_splits)
  with assms(2) show ?thesis by (simp add: includedPermissions_active)
qed

lemma foldl_pushPermission_subset:
  "set (acc_permissions (foldl pushPermission a ps)) \<subseteq> set (acc_permissions a) \<union> set ps"
proof (induction ps arbitrary: a)
  case Nil
  then show ?case by simp
next
  case (Cons p ps)
  have "set (acc_permissions (pushPermission a p)) \<subseteq> insert p (set (acc_permissions a))"
    by (auto simp: pushPermission_def)
  with Cons [of "pushPermission a p"] show ?case by auto
qed

lemma visitUserRole_subset:
  "set (acc_permissions (visitUserRole a row))
     \<subseteq> set (acc_permissions a) \<union> set (rwp_permissions (urd_role row))"
  unfolding visitUserRole_def Let_def
  by (rule order_trans [OF foldl_pushPermission_subset]) (auto split: option.splits)

lemma foldl_visitUserRole_subset:
  "set (acc_permissions (foldl visitUserRole a rows))
     \<subseteq> set (acc_permissions a) \<union> (\<Union>row \<in> set rows. set (rwp_permissions (urd_role row)))"
proof (induction rows arbitrary: a)
  case Nil
  then show ?case by simp
next
  case (Cons row rows)
  from Cons [of "visitUserRole a row"] visitUserRole_subset [of a row]
  show ?case by auto
qed

lemma getEffectivePermissions_active:
  assumes "getEffectivePermissions db now userId = Success e msg" "p \<in> set (ep_permissions e)"
  shows "p_isActive p"
proof -
  let ?a = "foldl visitUserRole
              \<lparr>acc_permissions = [], acc_roles = [], acc_departmentRoles = [],
               acc_seenPermissionIds = {}, acc_seenRoleIds = {}\<rparr>
              (getUserRoles db now userId)"
  from assms(1) have "ep_permissions e = acc_permissions ?a"
    by (auto simp: getEffectivePermissions_def Let_def)
  with assms(2) foldl_visitUserRole_subset [of _ "getUserRoles db now userId"]
  obtain row where "row \<in> set (getUserRoles db now userId)"
      "p \<in> set (rwp_permissions (urd_role row))"
    by fastforce
  then show ?thesis by (rule getUserRoles_active)
qed

lemma decide_matched:
  assumes "decide request ps = Inr res" "matchedPermission res = Some p"
  shows "p \<in> set ps"
proof (cases "\<exists>q \<in> set ps. p_resource q = rq_resource request \<and> p_action q = rq_action request")
  case True
  then obtain best where "best \<in> set ps" and
    "decide request ps =
       Inr (if p_scope best = S_OWN \<and> truthy (rq_targetOwnerId request) \<and>
               rq_targetOwnerId request \<noteq> Some (rq_userId request)
            then \<lparr>allowed = False,
                  reason = Some ''Permission only allows access to own resources'',
                  matchedPermission = Some best, effectiveScope = Some (p_scope best)\<rparr>
            else \<lparr>allowed = True, reason = None, matchedPermission = Some best,
                  effectiveScope = Some (p_scope best)\<rparr>)"
    by (rule decide_exact)
  with assms show ?thesis by (auto split: if_splits)
next
  case False
  then have "filter (\<lambda>q. p_resource q = rq_resource request \<and> p_action q = rq_action request) ps = []"
    by (simp add: filter_empty_conv)
  with assms show ?thesis
    by (auto simp: decide_def find_Some_iff split: option.splits)
qed

lemma decide_allowed:
  assumes "decide request ps = Inr res" "allowed res"
  shows "\<exists>p. matchedPermission res = Some p"
proof (cases "\<exists>q \<in> set ps. p_resource q = rq_resource request \<and> p_action q = rq_action request")
  case True
  then obtain best where
    "decide request ps =
       Inr (if p_scope best = S_OWN \<and> truthy (rq_targetOwnerId request) \<and>
               rq_targetOwnerId request \<noteq> Some (rq_userId request)
            then \<lparr>allowed = False,
                  reason = Some ''Permission only allows access to own resources'',
                  matchedPermission = Some best, effectiveScope = Some (p_scope best)\<rparr>
            else \<lparr>allowed = True, reason = None, matchedPermission = Some best,
                  effectiveScope = Some (p_scope best)\<rparr>)"
    by (rule decide_exact)
  with assms show ?thesis by (auto split: if_splits)
next
  case False
  then have "filter (\<lambda>q. p_resource q = rq_resource request \<and> p_action q = rq_action request) ps = []"
    by (simp add: filter_empty_conv)
  with assms show ?thesis
    by (auto simp: decide_def split: option.splits)
qed

text \<open>
  Claim C10. A permission whose isActive flag is false is in no list of gathered
  permissions: not in the result of getAllUserPermissions, not among the permissions
  of any row of getUserRoles, not among the permissions of getEffectivePermissions,
  and never the matchedPermission of checkPermission; and whenever checkPermission
  allows, it reports a matched permission and that permission is active.
\<close>

theorem inactive_permission_invisible:
  assumes "\<not> p_isActive p"
  shows "p \<notin> set (getAllUserPermissions db now userId departmentId)
       \<and> (\<forall>row \<in> set (getUserRoles db now userId). p \<notin> set (rwp_permissions (urd_role row)))
       \<and> (\<forall>e msg. getEffectivePermissions db now userId = Success e msg \<longrightarrow>
             p \<notin> set (ep_permissions e))
       \<and> (\<forall>res. checkPermission db now request = Inr res \<longrightarrow>
             matchedPermission res \<noteq> Some p \<and>
             (allowed res \<longrightarrow> (\<exists>q. matchedPermission res = Some q \<and> p_isActive q)))"
proof (intro conjI ballI allI impI)
  show "p \<notin> set (getAllUserPermissions db now userId departmentId)"
    using assms getAllUserPermissions_active by blast
next
  fix row assume "row \<in> set (getUserRoles db now userId)"
  then show "p \<notin> set (rwp_permissions (urd_role row))"
    using assms getUserRoles_active by blast
next
  fix e msg assume "getEffectivePermissions db now userId = Success e msg"
  then show "p \<notin> set (ep_permissions e)"
    using assms getEffectivePermissions_active by blast
next
  fix res assume r: "checkPermission db now request = Inr res"
  show "matchedPermission res \<noteq> Some p"
  proof
    assume "matchedPermission res = Some p"
    with r have "p \<in> set (gathered db now request)"
      unfolding checkPermission_def by (rule decide_matched)
    with assms show False by (simp add: getAllUserPermissions_active)
  qed
next
  fix res assume r: "checkPermission db now request = Inr res" and a: "allowed res"
  from r a obtain q where q: "matchedPermission res = Some q"
    unfolding checkPermission_def by (blast dest: decide_allowed)
  with r have "q \<in> set (gathered db now request)"
    unfolding checkPermission_def by (rule decide_matched)
  then have "p_isActive q" by (rule getAllUserPermissions_active)
  with q show "\<exists>q. matchedPermission res = Some q \<and> p_isActive q" by simp
qed

theorem inactive_permission_invisible_witness:
  "mkPermission ''p6'' ''file:read'' R_FILE A_READ S_OWN False False \<in> set (permission seeded)
   \<and> mkPermission ''p6'' ''file:read'' R_FILE A_READ S_OWN False False
       \<notin> set (getAllUserPermissions seeded 100 ''erin'' None)
   \<and> getAllUserPermissions seeded 100 ''erin'' None
       = [mkPermission ''p5'' ''file:manage:own'' R_FILE A_MANAGE S_OWN True False]"
proof -
  have off: "\<not> p_isActive (mkPermission ''p6'' ''file:read'' R_FILE A_READ S_OWN False False)"
    by (simp add: mkPermission_def)
  have "mkPermission ''p6'' ''file:read'' R_FILE A_READ S_OWN False False
       \<notin> set (getAllUserPermissions seeded 100 ''erin'' None)"
    by (rule inactive_permission_invisible [OF off, THEN conjunct1])
  moreover have "mkPermission ''p6'' ''file:read'' R_FILE A_READ S_OWN False False
       \<in> set (permission seeded)"
    by (simp add: seeded_def)
  ultimately show ?thesis using gathered_erin by simp
qed

section \<open>One assignment per triple\<close>


lemma tripleOf_reactivate [simp]: "tripleOf (reactivate now data ur) = tripleOf ur"
  by (simp add: reactivate_def)

lemma sameTriple_reactivate [simp]:
  "sameTriple u r d (reactivate now data ur) = sameTriple u r d ur"
  by (simp add: sameTriple_def reactivate_def)

lemma find_unique:
  assumes "distinct (map f xs)" "find (\<lambda>x. f x = k) xs = Some y"
  shows "filter (\<lambda>x. f x = k) xs = [y]"
  using assms
proof (induction xs)
  case Nil
  then show ?case by simp
next
  case (Cons x xs)
  show ?case
  proof (cases "f x = k")
    case True
    with Cons.prems have "y = x" and "\<forall>z \<in> set xs. f z \<noteq> k" by (auto simp: image_iff)
    with True show ?thesis by (simp add: filter_empty_conv)
  next
    case False
    with Cons show ?thesis by simp
  qed
qed



lemma revoke_frame [simp]:
  "user (revoke db u r d) = user db"
  "department (revoke db u r d) = department db"
  "findRole (revoke db u r d) = findRole db"
  by (simp_all add: revoke_def)

lemma revoke_length [simp]: "length (userRole (revoke db u r d)) = length (userRole db)"
  by (simp add: revoke_def)


lemma assign_created:
  assumes "find (sameTriple (ai_userId data) (ai_roleId data) (ai_departmentId data)) (userRole db)
             = None"
    and "foreignKeysHold db data"
  shows "assign db now newId data =
           Inr (\<lparr>ur_id = newId, ur_userId = ai_userId data, ur_roleId = ai_roleId data,
                 ur_departmentId = ai_departmentId data,
                 ur_assignedById = ai_assignedById data, ur_assignedAt = now,
                 ur_expiresAt = ai_expiresAt data, ur_isActive = True\<rparr>,
                db\<lparr>userRole := userRole db @
                  [\<lparr>ur_id = newId, ur_userId = ai_userId data, ur_roleId = ai_roleId data,
                    ur_departmentId = ai_departmentId data,
                    ur_assignedById = ai_assignedById data, ur_assignedAt = now,
                    ur_expiresAt = ai_expiresAt data, ur_isActive = True\<rparr>]\<rparr>)"
  using assms by (simp add: assign_def Let_def)

lemma assign_refused:
  assumes "find (sameTriple (ai_userId data) (ai_roleId data) (ai_departmentId data)) (userRole db)
             = None"
    and "\<not> foreignKeysHold db data"
  shows "assign db now newId data = Inl ForeignKeyViolation"
  using assms by (simp add: assign_def)






text \<open>
  A triple without a row: the create inserts one row when the user, the role and the
  department (if one is given) exist, and otherwise throws and writes nothing.
\<close>

lemma assign_fresh_triple:
  assumes "\<forall>ur \<in> set (userRole db).
             \<not> sameTriple (ai_userId data) (ai_roleId data) (ai_departmentId data) ur"
  shows "(foreignKeysHold db data \<longrightarrow>
            (\<exists>row. assign db now newId data = Inr (row, db\<lparr>userRole := userRole db @ [row]\<rparr>) \<and>
                   ur_id row = newId \<and> ur_isActive row \<and> ur_assignedAt row = now \<and>
                   ur_expiresAt row = ai_expiresAt data \<and>
                   ur_assignedById row = ai_assignedById data))
       \<and> (\<not> foreignKeysHold db data \<longrightarrow> assign db now newId data = Inl ForeignKeyViolation)"
proof -
  from assms have none:
    "find (sameTriple (ai_userId data) (ai_roleId data) (ai_departmentId data)) (userRole db) = None"
    by (simp add: find_None_iff)
  show ?thesis
    by (simp add: assign_created [OF none] assign_refused [OF none])
qed




section \<open>Grants\<close>

lemma sameGrant_iff: "sameGrant r p rp \<longleftrightarrow> pairOf rp = (r, p)"
  by (auto simp: sameGrant_def)

lemma grant_tables [simp]:
  "role (roleRepository_grantPermission db now newId data) = role db"
  "permission (roleRepository_grantPermission db now newId data) = permission db"
  by (simp_all add: roleRepository_grantPermission_def)

lemma grant_lookups [simp]:
  "findRole (roleRepository_grantPermission db now newId data) = findRole db"
  "findPermission (roleRepository_grantPermission db now newId data) = findPermission db"
  by (simp_all add: fun_eq_iff findRole_def findPermission_def)

lemma grant_present:
  assumes "\<exists>rp \<in> set (rolePermission db). sameGrant (gi_roleId data) (gi_permissionId data) rp"
  shows "roleRepository_grantPermission db now newId data = db"
  using assms by (simp add: roleRepository_grantPermission_def)

lemma grant_makes_present:
  "\<exists>rp \<in> set (rolePermission (roleRepository_grantPermission db now newId data)).
     sameGrant (gi_roleId data) (gi_permissionId data) rp"
  by (auto simp: roleRepository_grantPermission_def sameGrant_def)

lemma grant_keeps_unique:
  assumes "uniqueGrants db"
  shows "uniqueGrants (roleRepository_grantPermission db now newId data)"
proof (cases "\<exists>rp \<in> set (rolePermission db). sameGrant (gi_roleId data) (gi_permissionId data) rp")
  case True
  with assms show ?thesis by (simp add: grant_present)
next
  case False
  then have "(gi_roleId data, gi_permissionId data) \<notin> pairOf ` set (rolePermission db)"
    by (auto simp: sameGrant_def)
  with assms False show ?thesis
    by (simp add: roleRepository_grantPermission_def uniqueGrants_def)
qed

lemma service_grant:
  assumes "findRole db (gi_roleId data) = Some r" "findPermission db (gi_permissionId data) = Some p"
  shows "roleService_grantPermission db now newId data
           = (granted, roleRepository_grantPermission db now newId data)"
  using assms by (simp add: roleService_grantPermission_def)

lemma grantAll_present:
  assumes "findRole db roleId = Some r" "findPermission db permissionId = Some p"
    and "\<exists>rp \<in> set (rolePermission db). sameGrant roleId permissionId rp"
    and "\<forall>c \<in> set calls. gi_roleId (snd (snd c)) = roleId \<and> gi_permissionId (snd (snd c)) = permissionId"
  shows "grantAll db calls = (replicate (length calls) granted, db)"
  using assms(4)
proof (induction calls)
  case Nil
  then show ?case by simp
next
  case (Cons c calls)
  obtain now newId data where c: "c = (now, newId, data)" by (cases c)
  with Cons.prems have d: "gi_roleId data = roleId" "gi_permissionId data = permissionId" by simp_all
  have "roleService_grantPermission db now newId data = (granted, db)"
    using assms(1-3) d by (simp add: service_grant grant_present)
  moreover have "grantAll db calls = (replicate (length calls) granted, db)"
    using Cons by simp
  ultimately show ?case by (simp add: c)
qed

lemma unique_count:
  assumes "distinct (map f xs)"
  shows "length (filter (\<lambda>x. f x = k) xs) \<le> 1"
proof (cases "find (\<lambda>x. f x = k) xs")
  case None
  then have "filter (\<lambda>x. f x = k) xs = []" by (simp add: find_None_iff filter_empty_conv)
  then show ?thesis by simp
next
  case (Some y)
  with assms have "filter (\<lambda>x. f x = k) xs = [y]" by (rule find_unique)
  then show ?thesis by simp
qed

lemma grants_count:
  assumes "uniqueGrants db"
  shows "length (filter (sameGrant r p) (rolePermission db)) \<le> 1"
proof -
  have "sameGrant r p = (\<lambda>rp. pairOf rp = (r, p))" by (simp add: fun_eq_iff sameGrant_iff)
  with unique_count [of pairOf "rolePermission db" "(r, p)"] assms show ?thesis
    by (simp add: uniqueGrants_def)
qed

text \<open>
  Claim C8. For an existing role and permission, on a store with at most one grant
  per pair: any non-empty sequence of grantPermission calls for the pair succeeds
  every time and leaves exactly one grant row for the pair, and when the pair was
  granted before, the store is left as it was. For an existing role,
  revokePermission succeeds, removes the rows of the pair, of which there are zero or
  one, and leaves the store as it was when there is none.
\<close>

theorem grant_idempotent_revoke_silent:
  "(findRole db roleId = Some r \<and> findPermission db permissionId = Some p \<and> uniqueGrants db \<and>
    calls \<noteq> [] \<and>
    (\<forall>c \<in> set calls. gi_roleId (snd (snd c)) = roleId \<and> gi_permissionId (snd (snd c)) = permissionId)
    \<longrightarrow>
      fst (grantAll db calls) = replicate (length calls) granted \<and>
      length (filter (sameGrant roleId permissionId) (rolePermission (snd (grantAll db calls)))) = 1 \<and>
      uniqueGrants (snd (grantAll db calls)) \<and>
      ((\<exists>rp \<in> set (rolePermission db). sameGrant roleId permissionId rp) \<longrightarrow>
         snd (grantAll db calls) = db))
   \<and> (findRole db roleId = Some r \<and> uniqueGrants db \<longrightarrow>
        roleService_revokePermission db roleId permissionId
          = (Success () (Some ''Permission revoked successfully''),
             db\<lparr>rolePermission :=
                  filter (\<lambda>rp. \<not> sameGrant roleId permissionId rp) (rolePermission db)\<rparr>) \<and>
        length (filter (sameGrant roleId permissionId) (rolePermission db)) \<le> 1 \<and>
        length (rolePermission (snd (roleService_revokePermission db roleId permissionId)))
          + length (filter (sameGrant roleId permissionId) (rolePermission db))
          = length (rolePermission db) \<and>
        ((\<forall>rp \<in> set (rolePermission db). \<not> sameGrant roleId permissionId rp) \<longrightarrow>
           snd (roleService_revokePermission db roleId permissionId) = db))"
proof (intro conjI impI)
  assume a: "findRole db roleId = Some r \<and> findPermission db permissionId = Some p \<and>
    uniqueGrants db \<and> calls \<noteq> [] \<and>
    (\<forall>c \<in> set calls. gi_roleId (snd (snd c)) = roleId \<and> gi_permissionId (snd (snd c)) = permissionId)"
  then obtain c rest where calls: "calls = c # rest" by (cases calls) auto
  obtain now newId data where c: "c = (now, newId, data)" by (cases c)
  from a calls c have d: "gi_roleId data = roleId" "gi_permissionId data = permissionId"
    by simp_all
  let ?db1 = "roleRepository_grantPermission db now newId data"
  have first: "roleService_grantPermission db now newId data = (granted, ?db1)"
    using a d by (simp add: service_grant)
  have present: "\<exists>rp \<in> set (rolePermission ?db1). sameGrant roleId permissionId rp"
    using grant_makes_present [of db now newId data] d by simp
  have rest: "grantAll ?db1 rest = (replicate (length rest) granted, ?db1)"
  proof (rule grantAll_present [where r = r and p = p and roleId = roleId
        and permissionId = permissionId])
    show "findRole ?db1 roleId = Some r" using a by simp
    show "findPermission ?db1 permissionId = Some p" using a by simp
    show "\<exists>rp \<in> set (rolePermission ?db1). sameGrant roleId permissionId rp"
      by (fact present)
    show "\<forall>c \<in> set rest. gi_roleId (snd (snd c)) = roleId \<and>
        gi_permissionId (snd (snd c)) = permissionId"
      using a calls by simp
  qed
  have all: "grantAll db calls = (replicate (length calls) granted, ?db1)"
    by (simp add: calls c first rest)
  have u1: "uniqueGrants ?db1" using a by (simp add: grant_keeps_unique)
  show "fst (grantAll db calls) = replicate (length calls) granted" by (simp add: all)
  show "uniqueGrants (snd (grantAll db calls))" using u1 by (simp add: all)
  have "length (filter (sameGrant roleId permissionId) (rolePermission ?db1)) \<le> 1"
    using u1 by (rule grants_count)
  moreover have "filter (sameGrant roleId permissionId) (rolePermission ?db1) \<noteq> []"
    using present by (simp add: filter_empty_conv)
  ultimately have "length (filter (sameGrant roleId permissionId) (rolePermission ?db1)) = 1"
    by (cases "filter (sameGrant roleId permissionId) (rolePermission ?db1)") simp_all
  then show "length (filter (sameGrant roleId permissionId)
      (rolePermission (snd (grantAll db calls)))) = 1"
    by (simp add: all)
  show "snd (grantAll db calls) = db"
    if "\<exists>rp \<in> set (rolePermission db). sameGrant roleId permissionId rp"
    using that d by (simp add: all grant_present)
next
  assume a: "findRole db roleId = Some r \<and> uniqueGrants db"
  then show "roleService_revokePermission db roleId permissionId
          = (Success () (Some ''Permission revoked successfully''),
             db\<lparr>rolePermission :=
                  filter (\<lambda>rp. \<not> sameGrant roleId permissionId rp) (rolePermission db)\<rparr>)"
    by (simp add: roleService_revokePermission_def roleRepository_revokePermission_def)
  from a have "uniqueGrants db" by simp
  then show "length (filter (sameGrant roleId permissionId) (rolePermission db)) \<le> 1"
    by (rule grants_count)
  from a show "length (rolePermission (snd (roleService_revokePermission db roleId permissionId)))
          + length (filter (sameGrant roleId permissionId) (rolePermission db))
          = length (rolePermission db)"
    using sum_length_filter_compl [of "sameGrant roleId permissionId" "rolePermission db"]
    by (simp add: roleService_revokePermission_def roleRepository_revokePermission_def)
  show "snd (roleService_revokePermission db roleId permissionId) = db"
    if "\<forall>rp \<in> set (rolePermission db). \<not> sameGrant roleId permissionId rp"
  proof -
    from that have "filter (\<lambda>rp. \<not> sameGrant roleId permissionId rp) (rolePermission db)
        = rolePermission db"
      by (simp add: filter_id_conv)
    with a show ?thesis
      by (simp add: roleService_revokePermission_def roleRepository_revokePermission_def)
  qed
qed

theorem grant_idempotent_revoke_silent_witness:
  "grantAll seeded
     [(10, ''g7'', \<lparr>gi_roleId = ''r1'', gi_permissionId = ''p1'', gi_grantedById = None\<rparr>),
      (20, ''g8'', \<lparr>gi_roleId = ''r1'', gi_permissionId = ''p1'', gi_grantedById = Some ''root''\<rparr>)]
     = ([granted, granted], seeded)
   \<and> length (filter (sameGrant ''r1'' ''p2'')
        (rolePermission (snd (grantAll seeded
           [(10, ''g7'', \<lparr>gi_roleId = ''r1'', gi_permissionId = ''p2'', gi_grantedById = None\<rparr>),
            (20, ''g8'', \<lparr>gi_roleId = ''r1'', gi_permissionId = ''p2'', gi_grantedById = None\<rparr>)]))))
     = 1
   \<and> roleService_revokePermission seeded ''r1'' ''p3''
     = (Success () (Some ''Permission revoked successfully''), seeded)"
proof -
  let ?again = "[(10, ''g7'', \<lparr>gi_roleId = ''r1'', gi_permissionId = ''p1'', gi_grantedById = None\<rparr>),
      (20, ''g8'', \<lparr>gi_roleId = ''r1'', gi_permissionId = ''p1'', gi_grantedById = Some ''root''\<rparr>)]"
  let ?fresh = "[(10, ''g7'', \<lparr>gi_roleId = ''r1'', gi_permissionId = ''p2'', gi_grantedById = None\<rparr>),
      (20, ''g8'', \<lparr>gi_roleId = ''r1'', gi_permissionId = ''p2'', gi_grantedById = None\<rparr>)]"
  have r: "findRole seeded ''r1'' = Some (mkRole ''r1'' ''employee'' 10 True)"
    by (simp add: findRole_def seeded_def mkRole_def)
  have p1: "findPermission seeded ''p1''
      = Some (mkPermission ''p1'' ''user:read'' R_USER A_READ S_OWN True True)"
    by (simp add: findPermission_def seeded_def mkPermission_def)
  have p2: "findPermission seeded ''p2''
      = Some (mkPermission ''p2'' ''user:read:all'' R_USER A_READ S_ALL True True)"
    by (simp add: findPermission_def seeded_def mkPermission_def)
  have u: "uniqueGrants seeded"
    by (simp add: uniqueGrants_def seeded_def mkGrant_def)
  have has: "\<exists>rp \<in> set (rolePermission seeded). sameGrant ''r1'' ''p1'' rp"
    by (simp add: seeded_def mkGrant_def sameGrant_def)
  have none: "\<forall>rp \<in> set (rolePermission seeded). \<not> sameGrant ''r1'' ''p3'' rp"
    by (simp add: seeded_def mkGrant_def sameGrant_def)
  have a: "fst (grantAll seeded ?again) = replicate (length ?again) granted
      \<and> snd (grantAll seeded ?again) = seeded"
    using grant_idempotent_revoke_silent [where db = seeded and roleId = "''r1''"
        and permissionId = "''p1''" and calls = ?again, THEN conjunct1] r p1 u has
    by simp
  have b: "length (filter (sameGrant ''r1'' ''p2'')
        (rolePermission (snd (grantAll seeded ?fresh)))) = 1"
    using grant_idempotent_revoke_silent [where db = seeded and roleId = "''r1''"
        and permissionId = "''p2''" and calls = ?fresh, THEN conjunct1] r p2 u
    by simp
  have c: "fst (roleService_revokePermission seeded ''r1'' ''p3'')
      = Success () (Some ''Permission revoked successfully'')
      \<and> snd (roleService_revokePermission seeded ''r1'' ''p3'') = seeded"
    using grant_idempotent_revoke_silent [where db = seeded and roleId = "''r1''"
        and permissionId = "''p3''", THEN conjunct2] r u none
    by simp
  from a have "grantAll seeded ?again = ([granted, granted], seeded)"
    by (simp add: prod_eq_iff)
  moreover from c have "roleService_revokePermission seeded ''r1'' ''p3''
     = (Success () (Some ''Permission revoked successfully''), seeded)"
    by (simp add: prod_eq_iff)
  ultimately show ?thesis using b by simp
qed

section \<open>System permissions\<close>

text \<open>
  Claim C9. On a missing id, update, deactivate and delete fail with
  PERMISSION_NOT_FOUND. On a system permission, update with isActive false in the
  patch, deactivate, and delete fail with SYSTEM_PERMISSION. Each of these failures
  leaves the store as it was. On an existing permission that is not a system
  permission, delete succeeds and removes the entry (and its grants); the entries of
  other ids stay.
\<close>

theorem catalog_guards:
  "(findPermission db pid = None \<longrightarrow>
      permissionService_update db now pid data = Inr (notFound, db) \<and>
      permissionService_deactivate db now pid = Inr (notFound, db) \<and>
      permissionService_delete db pid = Inr (notFound, db))
   \<and> (\<forall>existing. findPermission db pid = Some existing \<and> p_isSystem existing \<longrightarrow>
        (up_isActive data = Some False \<longrightarrow>
           permissionService_update db now pid data
             = Inr (Failure ''System permissions cannot be deactivated''
                      (Some ''SYSTEM_PERMISSION''), db)) \<and>
        permissionService_deactivate db now pid
          = Inr (Failure ''System permissions cannot be deactivated''
                   (Some ''SYSTEM_PERMISSION''), db) \<and>
        permissionService_delete db pid
          = Inr (Failure ''System permissions cannot be deleted'' (Some ''SYSTEM_PERMISSION''), db))
   \<and> (\<forall>existing. findPermission db pid = Some existing \<and> \<not> p_isSystem existing \<longrightarrow>
        permissionService_delete db pid
          = Inr (Success () (Some ''Permission deleted successfully''),
                 db\<lparr>permission := filter (\<lambda>q. \<not> (p_id q = pid \<and> \<not> p_isSystem q)) (permission db),
                    rolePermission := filter (\<lambda>rp. rp_permissionId rp \<noteq> pid) (rolePermission db)\<rparr>) \<and>
        existing \<in> set (permission db) \<and>
        existing \<notin> set (filter (\<lambda>q. \<not> (p_id q = pid \<and> \<not> p_isSystem q)) (permission db)) \<and>
        (\<forall>q \<in> set (permission db). p_id q \<noteq> pid \<longrightarrow>
           q \<in> set (filter (\<lambda>q. \<not> (p_id q = pid \<and> \<not> p_isSystem q)) (permission db))))"
proof (intro conjI allI impI)
  assume "findPermission db pid = None"
  then show "permissionService_update db now pid data = Inr (notFound, db)"
    and "permissionService_deactivate db now pid = Inr (notFound, db)"
    and "permissionService_delete db pid = Inr (notFound, db)"
    by (simp_all add: permissionService_update_def permissionService_deactivate_def
        permissionService_delete_def)
next
  fix existing
  assume a: "findPermission db pid = Some existing \<and> p_isSystem existing"
  then show "permissionService_deactivate db now pid
          = Inr (Failure ''System permissions cannot be deactivated''
                   (Some ''SYSTEM_PERMISSION''), db)"
    and "permissionService_delete db pid
          = Inr (Failure ''System permissions cannot be deleted'' (Some ''SYSTEM_PERMISSION''), db)"
    by (simp_all add: permissionService_deactivate_def permissionService_delete_def)
  show "permissionService_update db now pid data
             = Inr (Failure ''System permissions cannot be deactivated''
                      (Some ''SYSTEM_PERMISSION''), db)"
    if "up_isActive data = Some False"
    using a that by (simp add: permissionService_update_def)
next
  fix existing
  assume a: "findPermission db pid = Some existing \<and> \<not> p_isSystem existing"
  then have e: "existing \<in> set (permission db)" "p_id existing = pid"
    by (auto simp: findPermission_def find_Some_iff)
  from e show "existing \<in> set (permission db)" by simp
  from a e show "existing \<notin> set (filter (\<lambda>q. \<not> (p_id q = pid \<and> \<not> p_isSystem q)) (permission db))"
    by simp
  from a e have "\<exists>q \<in> set (permission db). p_id q = pid \<and> \<not> p_isSystem q" by blast
  with a show "permissionService_delete db pid
          = Inr (Success () (Some ''Permission deleted successfully''),
                 db\<lparr>permission := filter (\<lambda>q. \<not> (p_id q = pid \<and> \<not> p_isSystem q)) (permission db),
                    rolePermission := filter (\<lambda>rp. rp_permissionId rp \<noteq> pid) (rolePermission db)\<rparr>)"
    by (simp add: permissionService_delete_def permissionRepository_delete_def)
  show "\<forall>q \<in> set (permission db). p_id q \<noteq> pid \<longrightarrow>
      q \<in> set (filter (\<lambda>q. \<not> (p_id q = pid \<and> \<not> p_isSystem q)) (permission db))"
    by simp
qed

theorem catalog_guards_witness:
  "permissionService_update seeded 100 ''p1''
     \<lparr>up_name = None, up_description = None, up_scope = None, up_isActive = Some False\<rparr>
     = Inr (Failure ''System permissions cannot be deactivated'' (Some ''SYSTEM_PERMISSION''), seeded)
   \<and> permissionService_deactivate seeded 100 ''p1''
     = Inr (Failure ''System permissions cannot be deactivated'' (Some ''SYSTEM_PERMISSION''), seeded)
   \<and> permissionService_delete seeded ''p1''
     = Inr (Failure ''System permissions cannot be deleted'' (Some ''SYSTEM_PERMISSION''), seeded)
   \<and> permissionService_delete seeded ''p9'' = Inr (notFound, seeded)
   \<and> permissionService_delete seeded ''p5''
     = Inr (Success () (Some ''Permission deleted successfully''),
            seeded\<lparr>permission := filter (\<lambda>q. \<not> (p_id q = ''p5'' \<and> \<not> p_isSystem q)) (permission seeded),
                   rolePermission := filter (\<lambda>rp. rp_permissionId rp \<noteq> ''p5'') (rolePermission seeded)\<rparr>)
   \<and> findPermission
       (seeded\<lparr>permission := filter (\<lambda>q. \<not> (p_id q = ''p5'' \<and> \<not> p_isSystem q)) (permission seeded),
               rolePermission := filter (\<lambda>rp. rp_permissionId rp \<noteq> ''p5'') (rolePermission seeded)\<rparr>)
       ''p5'' = None"
proof -
  have p1: "findPermission seeded ''p1''
      = Some (mkPermission ''p1'' ''user:read'' R_USER A_READ S_OWN True True)
      \<and> p_isSystem (mkPermission ''p1'' ''user:read'' R_USER A_READ S_OWN True True)"
    by (simp add: findPermission_def seeded_def mkPermission_def)
  have p5: "findPermission seeded ''p5''
      = Some (mkPermission ''p5'' ''file:manage:own'' R_FILE A_MANAGE S_OWN True False)
      \<and> \<not> p_isSystem (mkPermission ''p5'' ''file:manage:own'' R_FILE A_MANAGE S_OWN True False)"
    by (simp add: findPermission_def seeded_def mkPermission_def)
  have p9: "findPermission seeded ''p9'' = None"
    by (simp add: findPermission_def seeded_def mkPermission_def)
  have off: "up_isActive \<lparr>up_name = None, up_description = None, up_scope = None,
      up_isActive = Some False\<rparr> = Some False"
    by simp
  note sys = catalog_guards [where db = seeded and pid = "''p1''" and now = 100
      and data = "\<lparr>up_name = None, up_description = None, up_scope = None, up_isActive = Some False\<rparr>",
      THEN conjunct2, THEN conjunct1, rule_format, OF p1]
  note missing = catalog_guards [where db = seeded and pid = "''p9''" and now = 100,
      THEN conjunct1, rule_format, OF p9]
  note plain = catalog_guards [where db = seeded and pid = "''p5''" and now = 100,
      THEN conjunct2, THEN conjunct2, rule_format, OF p5]
  have gone: "findPermission
       (seeded\<lparr>permission := filter (\<lambda>q. \<not> (p_id q = ''p5'' \<and> \<not> p_isSystem q)) (permission seeded),
               rolePermission := filter (\<lambda>rp. rp_permissionId rp \<noteq> ''p5'') (rolePermission seeded)\<rparr>)
       ''p5'' = None"
    by (simp add: findPermission_def seeded_def mkPermission_def)
  from sys off missing plain gone show ?thesis by simp
qed

end
